theory Spec2Isabelle
  imports Main
begin

section \<open>The intermediate language built by the lifter\<close>

text \<open>
  The lifter of \<^verbatim>\<open>sh_il.c\<close> is a tree builder: every generator returns a pointer to an
  effect tree, or NULL. The trees are modelled as datatypes, a nullable pointer as an
  \<open>option\<close>, and every builder macro as a function on nullable pointers.

  Modelled from the spec: the builder macros (\<^verbatim>\<open>rz_il_opbuilder_begin.h\<close>) are not part of
  the source file. One node kind is kept per macro the lifter uses; a macro that receives
  an absent operand yields an absent node. The macros \<^verbatim>\<open>UN\<close> and \<^verbatim>\<open>SN\<close> are named
  \<open>UN_bitv\<close> and \<open>SN_bitv\<close>, since \<open>UN\<close> is a reserved word of the logic's syntax; the
  sequence macros nest to the right.
\<close>

datatype RzILVarKind = GLOBAL | LOCAL

datatype RzILOpPure =
    OpBitv nat nat
  | OpVar RzILVarKind string
  | OpIte RzILOpPure RzILOpPure RzILOpPure
  | OpAnd RzILOpPure RzILOpPure
  | OpOr RzILOpPure RzILOpPure
  | OpXor RzILOpPure RzILOpPure
  | OpInv RzILOpPure
  | OpMsb RzILOpPure
  | OpIsZero RzILOpPure
  | OpNonZero RzILOpPure
  | OpLogAnd RzILOpPure RzILOpPure
  | OpLogOr RzILOpPure RzILOpPure
  | OpShiftL0 RzILOpPure RzILOpPure
  | OpShiftR0 RzILOpPure RzILOpPure
  | OpUnsigned nat RzILOpPure
  | OpSigned nat RzILOpPure
  | OpAdd RzILOpPure RzILOpPure
  | OpSub RzILOpPure RzILOpPure
  | OpMul RzILOpPure RzILOpPure
  | OpEq RzILOpPure RzILOpPure
  | OpUgt RzILOpPure RzILOpPure
  | OpUlt RzILOpPure RzILOpPure
  | OpLoadW nat RzILOpPure

datatype RzILOpEffect =
    OpNop
  | OpSet RzILVarKind string RzILOpPure
  | OpSeq RzILOpEffect RzILOpEffect
  | OpBranch RzILOpPure RzILOpEffect RzILOpEffect
  | OpStoreW RzILOpPure RzILOpPure

definition op1 :: "('a \<Rightarrow> 'b) \<Rightarrow> 'a option \<Rightarrow> 'b option" where
  "op1 f x = (case x of None \<Rightarrow> None | Some a \<Rightarrow> Some (f a))"

definition op2 :: "('a \<Rightarrow> 'b \<Rightarrow> 'c) \<Rightarrow> 'a option \<Rightarrow> 'b option \<Rightarrow> 'c option" where
  "op2 f x y = (case x of None \<Rightarrow> None
                | Some a \<Rightarrow> (case y of None \<Rightarrow> None | Some b \<Rightarrow> Some (f a b)))"

definition op3 :: "('a \<Rightarrow> 'b \<Rightarrow> 'c \<Rightarrow> 'd) \<Rightarrow> 'a option \<Rightarrow> 'b option \<Rightarrow> 'c option \<Rightarrow> 'd option" where
  "op3 f x y z = (case x of None \<Rightarrow> None
                  | Some a \<Rightarrow> op2 (f a) y z)"

definition UN_bitv :: "nat \<Rightarrow> nat \<Rightarrow> RzILOpPure option" where
  "UN_bitv l val = Some (OpBitv l (val mod 2 ^ l))"

definition SN_bitv :: "nat \<Rightarrow> int \<Rightarrow> RzILOpPure option" where
  "SN_bitv l val = Some (OpBitv l (nat (val mod 2 ^ l)))"

definition VARG :: "string option \<Rightarrow> RzILOpPure option" where
  "VARG name = op1 (OpVar GLOBAL) name"

definition VARL :: "string option \<Rightarrow> RzILOpPure option" where
  "VARL name = op1 (OpVar LOCAL) name"

definition DUP :: "RzILOpPure option \<Rightarrow> RzILOpPure option" where
  "DUP x = x"

definition ITE :: "RzILOpPure option \<Rightarrow> RzILOpPure option \<Rightarrow> RzILOpPure option \<Rightarrow> RzILOpPure option" where
  "ITE c x y = op3 OpIte c x y"

definition AND :: "RzILOpPure option \<Rightarrow> RzILOpPure option \<Rightarrow> RzILOpPure option" where
  "AND x y = op2 OpAnd x y"

definition OR :: "RzILOpPure option \<Rightarrow> RzILOpPure option \<Rightarrow> RzILOpPure option" where
  "OR x y = op2 OpOr x y"

definition XOR :: "RzILOpPure option \<Rightarrow> RzILOpPure option \<Rightarrow> RzILOpPure option" where
  "XOR x y = op2 OpXor x y"

definition INV :: "RzILOpPure option \<Rightarrow> RzILOpPure option" where
  "INV x = op1 OpInv x"

definition MSB :: "RzILOpPure option \<Rightarrow> RzILOpPure option" where
  "MSB x = op1 OpMsb x"

definition IS_ZERO :: "RzILOpPure option \<Rightarrow> RzILOpPure option" where
  "IS_ZERO x = op1 OpIsZero x"

definition NON_ZERO :: "RzILOpPure option \<Rightarrow> RzILOpPure option" where
  "NON_ZERO x = op1 OpNonZero x"

definition LOGAND :: "RzILOpPure option \<Rightarrow> RzILOpPure option \<Rightarrow> RzILOpPure option" where
  "LOGAND x y = op2 OpLogAnd x y"

definition LOGOR :: "RzILOpPure option \<Rightarrow> RzILOpPure option \<Rightarrow> RzILOpPure option" where
  "LOGOR x y = op2 OpLogOr x y"

definition SHIFTL0 :: "RzILOpPure option \<Rightarrow> RzILOpPure option \<Rightarrow> RzILOpPure option" where
  "SHIFTL0 v dist = op2 OpShiftL0 v dist"

definition SHIFTR0 :: "RzILOpPure option \<Rightarrow> RzILOpPure option \<Rightarrow> RzILOpPure option" where
  "SHIFTR0 v dist = op2 OpShiftR0 v dist"

definition UNSIGNED :: "nat \<Rightarrow> RzILOpPure option \<Rightarrow> RzILOpPure option" where
  "UNSIGNED n x = op1 (OpUnsigned n) x"

definition SIGNED :: "nat \<Rightarrow> RzILOpPure option \<Rightarrow> RzILOpPure option" where
  "SIGNED n x = op1 (OpSigned n) x"

definition ADD :: "RzILOpPure option \<Rightarrow> RzILOpPure option \<Rightarrow> RzILOpPure option" where
  "ADD x y = op2 OpAdd x y"

definition SUB :: "RzILOpPure option \<Rightarrow> RzILOpPure option \<Rightarrow> RzILOpPure option" where
  "SUB x y = op2 OpSub x y"

definition MUL :: "RzILOpPure option \<Rightarrow> RzILOpPure option \<Rightarrow> RzILOpPure option" where
  "MUL x y = op2 OpMul x y"

definition EQ :: "RzILOpPure option \<Rightarrow> RzILOpPure option \<Rightarrow> RzILOpPure option" where
  "EQ x y = op2 OpEq x y"

definition UGT :: "RzILOpPure option \<Rightarrow> RzILOpPure option \<Rightarrow> RzILOpPure option" where
  "UGT x y = op2 OpUgt x y"

definition ULT :: "RzILOpPure option \<Rightarrow> RzILOpPure option \<Rightarrow> RzILOpPure option" where
  "ULT x y = op2 OpUlt x y"

definition LOADW :: "nat \<Rightarrow> RzILOpPure option \<Rightarrow> RzILOpPure option" where
  "LOADW n addr = op1 (OpLoadW n) addr"

definition NOP :: "RzILOpEffect option" where
  "NOP = Some OpNop"

definition SETG :: "string option \<Rightarrow> RzILOpPure option \<Rightarrow> RzILOpEffect option" where
  "SETG name v = op2 (OpSet GLOBAL) name v"

definition SETL :: "string option \<Rightarrow> RzILOpPure option \<Rightarrow> RzILOpEffect option" where
  "SETL name v = op2 (OpSet LOCAL) name v"

definition STOREW :: "RzILOpPure option \<Rightarrow> RzILOpPure option \<Rightarrow> RzILOpEffect option" where
  "STOREW addr val = op2 OpStoreW addr val"

definition BRANCH :: "RzILOpPure option \<Rightarrow> RzILOpEffect option \<Rightarrow> RzILOpEffect option \<Rightarrow> RzILOpEffect option" where
  "BRANCH c t f = op3 OpBranch c t f"

definition SEQ2 :: "RzILOpEffect option \<Rightarrow> RzILOpEffect option \<Rightarrow> RzILOpEffect option" where
  "SEQ2 e0 e1 = op2 OpSeq e0 e1"

definition SEQ3 :: "RzILOpEffect option \<Rightarrow> RzILOpEffect option \<Rightarrow> RzILOpEffect option \<Rightarrow> RzILOpEffect option" where
  "SEQ3 e0 e1 e2 = SEQ2 e0 (SEQ2 e1 e2)"

definition SEQ4 :: "RzILOpEffect option \<Rightarrow> RzILOpEffect option \<Rightarrow> RzILOpEffect option \<Rightarrow> RzILOpEffect option \<Rightarrow> RzILOpEffect option" where
  "SEQ4 e0 e1 e2 e3 = SEQ2 e0 (SEQ3 e1 e2 e3)"

section \<open>Constants of the SuperH headers\<close>

text \<open>
  Modelled from the spec: the headers \<^verbatim>\<open>sh_il.h\<close> and \<^verbatim>\<open>regs.h\<close> are not part of the
  source file. The register is 32 bits wide (spec, section 1), sixteen general registers
  exist of which the first eight are banked (the layout of \<^verbatim>\<open>sh_global_registers\<close>), and
  the nine flag names are pairwise distinct strings. The indices of the control registers
  follow the sixteen general registers and the program counter.
\<close>

definition SH_REG_SIZE :: nat where "SH_REG_SIZE = 32"
definition SH_ADDR_SIZE :: nat where "SH_ADDR_SIZE = 32"
definition BITS_PER_BYTE :: nat where "BITS_PER_BYTE = 8"
definition SH_GPR_COUNT :: nat where "SH_GPR_COUNT = 16"
definition SH_BANKED_REG_COUNT :: nat where "SH_BANKED_REG_COUNT = 8"
definition SH_REG_IND_R0 :: nat where "SH_REG_IND_R0 = 0"
definition SH_REG_IND_SR :: nat where "SH_REG_IND_SR = 17"
definition SH_REG_IND_GBR :: nat where "SH_REG_IND_GBR = 18"

definition SH_SR_T :: string where "SH_SR_T = ''sr_t''"
definition SH_SR_S :: string where "SH_SR_S = ''sr_s''"
definition SH_SR_I :: string where "SH_SR_I = ''sr_i''"
definition SH_SR_Q :: string where "SH_SR_Q = ''sr_q''"
definition SH_SR_M :: string where "SH_SR_M = ''sr_m''"
definition SH_SR_F :: string where "SH_SR_F = ''sr_f''"
definition SH_SR_B :: string where "SH_SR_B = ''sr_b''"
definition SH_SR_R :: string where "SH_SR_R = ''sr_r''"
definition SH_SR_D :: string where "SH_SR_D = ''sr_d''"

definition sh_registers :: "string list" where
  "sh_registers =
    [''r0'', ''r1'', ''r2'', ''r3'', ''r4'', ''r5'', ''r6'', ''r7'',
     ''r8'', ''r9'', ''r10'', ''r11'', ''r12'', ''r13'', ''r14'', ''r15'',
     ''pc'', ''sr'', ''gbr'', ''ssr'', ''spc'', ''sgr'', ''dbr'', ''vbr'',
     ''mach'', ''macl'', ''pr'']"

text \<open>
  The scaling of an operation and its size in bytes; the invalid scaling has the size
  \<open>-1\<close> of an unsigned byte.
\<close>

datatype SHScaling = SH_SCALING_INVALID | SH_SCALING_B | SH_SCALING_W | SH_SCALING_L

fun sh_scaling_size :: "SHScaling \<Rightarrow> nat" where
  "sh_scaling_size SH_SCALING_INVALID = 255"
| "sh_scaling_size SH_SCALING_B = 1"
| "sh_scaling_size SH_SCALING_W = 2"
| "sh_scaling_size SH_SCALING_L = 4"

datatype SHAddrMode =
    SH_ADDR_INVALID
  | SH_REG_DIRECT
  | SH_REG_INDIRECT
  | SH_REG_INDIRECT_I
  | SH_REG_INDIRECT_D
  | SH_REG_INDIRECT_DISP
  | SH_REG_INDIRECT_INDEXED
  | SH_GBR_INDIRECT_DISP
  | SH_GBR_INDIRECT_INDEXED
  | SH_PC_RELATIVE_DISP
  | SH_PC_RELATIVE8
  | SH_PC_RELATIVE12
  | SH_PC_RELATIVE_REG
  | SH_IMM_U
  | SH_IMM_S

record SHParam =
  mode :: SHAddrMode
  param0 :: nat
  param1 :: nat

record SHOp =
  op_param0 :: SHParam
  op_param1 :: SHParam
  op_scaling :: SHScaling

definition op_param :: "SHOp \<Rightarrow> nat \<Rightarrow> SHParam" where
  "op_param op x = (if x = 0 then op_param0 op else op_param1 op)"

section \<open>Evaluation of the intermediate language\<close>

text \<open>
  Modelled from the spec: the evaluator of the trees is an external collaborator
  (spec, sections 1 and 4.1). Values are booleans or bitvectors of an explicit width
  (a width and an unsigned number below two to that width); arithmetic is modulo two to the
  width; a node applied to a value of the wrong sort, to operands of different widths or
  to an unbound variable has no value. Global and local variables live in two
  separate tables; a set effect binds its variable in the table of its kind.
\<close>

datatype RzILVal = VBool bool | VBitv nat nat

record RzILVM =
  vm_pc :: "nat \<times> nat"
  vm_vars :: "string list"
  vm_global_bind :: "string \<Rightarrow> RzILVal option"
  vm_local_bind :: "string \<Rightarrow> RzILVal option"
  vm_memory :: "nat \<Rightarrow> nat"
  vm_big_endian :: bool
  vm_events :: "string list"
  vm_reg_binding :: "(string \<times> nat) list option"

definition bool1 :: "(bool \<Rightarrow> bool) \<Rightarrow> RzILVal option \<Rightarrow> RzILVal option" where
  "bool1 f x = (case x of Some (VBool a) \<Rightarrow> Some (VBool (f a)) | _ \<Rightarrow> None)"

definition bool2 :: "(bool \<Rightarrow> bool \<Rightarrow> bool) \<Rightarrow> RzILVal option \<Rightarrow> RzILVal option \<Rightarrow> RzILVal option" where
  "bool2 f x y =
    (case x of Some (VBool a) \<Rightarrow> (case y of Some (VBool b) \<Rightarrow> Some (VBool (f a b)) | _ \<Rightarrow> None)
     | _ \<Rightarrow> None)"

definition bitv1 :: "(nat \<Rightarrow> nat \<Rightarrow> RzILVal) \<Rightarrow> RzILVal option \<Rightarrow> RzILVal option" where
  "bitv1 f x = (case x of Some (VBitv w a) \<Rightarrow> Some (f w a) | _ \<Rightarrow> None)"

definition bitv2 :: "(nat \<Rightarrow> nat \<Rightarrow> nat \<Rightarrow> RzILVal) \<Rightarrow> RzILVal option \<Rightarrow> RzILVal option \<Rightarrow> RzILVal option" where
  "bitv2 f x y =
    (case x of Some (VBitv w a) \<Rightarrow>
       (case y of Some (VBitv w' b) \<Rightarrow> if w = w' then Some (f w a b) else None | _ \<Rightarrow> None)
     | _ \<Rightarrow> None)"

definition shift2 :: "(nat \<Rightarrow> nat \<Rightarrow> nat \<Rightarrow> RzILVal) \<Rightarrow> RzILVal option \<Rightarrow> RzILVal option \<Rightarrow> RzILVal option" where
  "shift2 f x y =
    (case x of Some (VBitv w a) \<Rightarrow>
       (case y of Some (VBitv w' b) \<Rightarrow> Some (f w a b) | _ \<Rightarrow> None)
     | _ \<Rightarrow> None)"

definition bv_msb :: "nat \<Rightarrow> nat \<Rightarrow> bool" where
  "bv_msb w a = (0 < w \<and> (a div 2 ^ (w - 1)) mod 2 = 1)"

definition bv_signed :: "nat \<Rightarrow> nat \<Rightarrow> nat \<Rightarrow> nat" where
  "bv_signed n w a =
    (if n \<le> w then a mod 2 ^ n
     else if bv_msb w a then a + (2 ^ n - 2 ^ w) else a)"

definition mem_loadw :: "RzILVM \<Rightarrow> nat \<Rightarrow> nat \<Rightarrow> nat \<Rightarrow> nat" where
  "mem_loadw vm w a n_bits =
    (let bytes = map (\<lambda>i. vm_memory vm ((a + i) mod 2 ^ w) mod 256) [0..<n_bits div 8]
     in (if vm_big_endian vm then foldl (\<lambda>acc b. acc * 256 + b) 0 bytes
         else foldr (\<lambda>b acc. b + 256 * acc) bytes 0) mod 2 ^ n_bits)"

definition mem_storew :: "RzILVM \<Rightarrow> nat \<Rightarrow> nat \<Rightarrow> nat \<Rightarrow> nat \<Rightarrow> nat \<Rightarrow> nat" where
  "mem_storew vm w a n_bits v =
    (let n = n_bits div 8
     in fold (\<lambda>i m. m((a + i) mod 2 ^ w :=
                 (if vm_big_endian vm then (v div 256 ^ (n - 1 - i)) mod 256
                  else (v div 256 ^ i) mod 256)))
          [0..<n] (vm_memory vm))"

fun eval_pure :: "RzILVM \<Rightarrow> RzILOpPure \<Rightarrow> RzILVal option" where
  "eval_pure vm (OpBitv w n) = Some (VBitv w (n mod 2 ^ w))"
| "eval_pure vm (OpVar k name) =
    (case k of GLOBAL \<Rightarrow> vm_global_bind vm name | LOCAL \<Rightarrow> vm_local_bind vm name)"
| "eval_pure vm (OpIte c x y) =
    (case eval_pure vm c of
       Some (VBool b) \<Rightarrow> if b then eval_pure vm x else eval_pure vm y
     | _ \<Rightarrow> None)"
| "eval_pure vm (OpAnd x y) = bool2 (\<lambda>a b. a \<and> b) (eval_pure vm x) (eval_pure vm y)"
| "eval_pure vm (OpOr x y) = bool2 (\<lambda>a b. a \<or> b) (eval_pure vm x) (eval_pure vm y)"
| "eval_pure vm (OpXor x y) = bool2 (\<lambda>a b. a \<noteq> b) (eval_pure vm x) (eval_pure vm y)"
| "eval_pure vm (OpInv x) = bool1 (\<lambda>a. \<not> a) (eval_pure vm x)"
| "eval_pure vm (OpMsb x) = bitv1 (\<lambda>w a. VBool (bv_msb w a)) (eval_pure vm x)"
| "eval_pure vm (OpIsZero x) = bitv1 (\<lambda>w a. VBool (a = 0)) (eval_pure vm x)"
| "eval_pure vm (OpNonZero x) = bitv1 (\<lambda>w a. VBool (a \<noteq> 0)) (eval_pure vm x)"
| "eval_pure vm (OpLogAnd x y) = bitv2 (\<lambda>w a b. VBitv w (and a b)) (eval_pure vm x) (eval_pure vm y)"
| "eval_pure vm (OpLogOr x y) = bitv2 (\<lambda>w a b. VBitv w (or a b)) (eval_pure vm x) (eval_pure vm y)"
| "eval_pure vm (OpShiftL0 x y) =
    shift2 (\<lambda>w a d. VBitv w ((a * 2 ^ d) mod 2 ^ w)) (eval_pure vm x) (eval_pure vm y)"
| "eval_pure vm (OpShiftR0 x y) =
    shift2 (\<lambda>w a d. VBitv w (a div 2 ^ d)) (eval_pure vm x) (eval_pure vm y)"
| "eval_pure vm (OpUnsigned n x) = bitv1 (\<lambda>w a. VBitv n (a mod 2 ^ n)) (eval_pure vm x)"
| "eval_pure vm (OpSigned n x) = bitv1 (\<lambda>w a. VBitv n (bv_signed n w a)) (eval_pure vm x)"
| "eval_pure vm (OpAdd x y) =
    bitv2 (\<lambda>w a b. VBitv w ((a + b) mod 2 ^ w)) (eval_pure vm x) (eval_pure vm y)"
| "eval_pure vm (OpSub x y) =
    bitv2 (\<lambda>w a b. VBitv w ((a + (2 ^ w - b mod 2 ^ w)) mod 2 ^ w)) (eval_pure vm x) (eval_pure vm y)"
| "eval_pure vm (OpMul x y) =
    bitv2 (\<lambda>w a b. VBitv w ((a * b) mod 2 ^ w)) (eval_pure vm x) (eval_pure vm y)"
| "eval_pure vm (OpEq x y) = bitv2 (\<lambda>w a b. VBool (a = b)) (eval_pure vm x) (eval_pure vm y)"
| "eval_pure vm (OpUgt x y) = bitv2 (\<lambda>w a b. VBool (a > b)) (eval_pure vm x) (eval_pure vm y)"
| "eval_pure vm (OpUlt x y) = bitv2 (\<lambda>w a b. VBool (a < b)) (eval_pure vm x) (eval_pure vm y)"
| "eval_pure vm (OpLoadW n addr) =
    bitv1 (\<lambda>w a. VBitv n (mem_loadw vm w a n)) (eval_pure vm addr)"

fun exec_effect :: "RzILOpEffect \<Rightarrow> RzILVM \<Rightarrow> RzILVM option" where
  "exec_effect OpNop vm = Some vm"
| "exec_effect (OpSet k name x) vm =
    (case eval_pure vm x of
       None \<Rightarrow> None
     | Some v \<Rightarrow>
        (case k of
           GLOBAL \<Rightarrow> Some (vm\<lparr>vm_global_bind := (vm_global_bind vm)(name := Some v)\<rparr>)
         | LOCAL \<Rightarrow> Some (vm\<lparr>vm_local_bind := (vm_local_bind vm)(name := Some v)\<rparr>)))"
| "exec_effect (OpSeq x y) vm =
    (case exec_effect x vm of None \<Rightarrow> None | Some vm' \<Rightarrow> exec_effect y vm')"
| "exec_effect (OpBranch c t f) vm =
    (case eval_pure vm c of
       Some (VBool b) \<Rightarrow> if b then exec_effect t vm else exec_effect f vm
     | _ \<Rightarrow> None)"
| "exec_effect (OpStoreW key x) vm =
    (case eval_pure vm key of
       Some (VBitv w a) \<Rightarrow>
        (case eval_pure vm x of
           Some (VBitv n v) \<Rightarrow> Some (vm\<lparr>vm_memory := mem_storew vm w a n v\<rparr>)
         | _ \<Rightarrow> None)
     | _ \<Rightarrow> None)"

text \<open>
  A generator hands back a nullable pointer; running an absent effect is no run at all.
\<close>

definition exec_opt :: "RzILOpEffect option \<Rightarrow> RzILVM \<Rightarrow> RzILVM option" where
  "exec_opt e vm = (case e of None \<Rightarrow> None | Some x \<Rightarrow> exec_effect x vm)"

definition eval_opt :: "RzILVM \<Rightarrow> RzILOpPure option \<Rightarrow> RzILVal option" where
  "eval_opt vm e = (case e of None \<Rightarrow> None | Some x \<Rightarrow> eval_pure vm x)"

section \<open>The lifter: status word, registers, operands, flags\<close>

definition SH_U_ADDR :: "nat \<Rightarrow> RzILOpPure option" where
  "SH_U_ADDR x = UN_bitv SH_ADDR_SIZE x"

definition SH_U_REG :: "nat \<Rightarrow> RzILOpPure option" where
  "SH_U_REG x = UN_bitv SH_REG_SIZE x"

definition SH_S_REG :: "int \<Rightarrow> RzILOpPure option" where
  "SH_S_REG x = SN_bitv SH_REG_SIZE x"

definition SH_TRUE :: "RzILOpPure option" where
  "SH_TRUE = SH_U_REG 1"

definition SH_FALSE :: "RzILOpPure option" where
  "SH_FALSE = SH_U_REG 0"

definition sh_valid_gpr :: "nat \<Rightarrow> bool" where
  "sh_valid_gpr reg = (reg < SH_GPR_COUNT)"

definition sh_banked_reg :: "nat \<Rightarrow> bool" where
  "sh_banked_reg reg = (reg < SH_BANKED_REG_COUNT)"

definition sh_global_registers :: "string list" where
  "sh_global_registers =
    [''r0'', ''r1'', ''r2'', ''r3'', ''r4'', ''r5'', ''r6'', ''r7'',
     ''r0b'', ''r1b'', ''r2b'', ''r3b'', ''r4b'', ''r5b'', ''r6b'', ''r7b'',
     ''r8'', ''r9'', ''r10'', ''r11'', ''r12'', ''r13'', ''r14'', ''r15'', ''sr'',
     SH_SR_T, SH_SR_S, SH_SR_I, SH_SR_I, SH_SR_Q, SH_SR_M, SH_SR_F, SH_SR_B, SH_SR_R, SH_SR_D,
     ''gbr'', ''ssr'', ''spc'', ''sgr'', ''dbr'', ''vbr'', ''mach'', ''macl'', ''pr'']"

definition sh_get_banked_reg :: "nat \<Rightarrow> nat \<Rightarrow> string option" where
  "sh_get_banked_reg reg bank =
    (if \<not> sh_banked_reg reg \<or> bank > 1 then None
     else Some (sh_global_registers ! (reg + bank * SH_BANKED_REG_COUNT)))"

definition sh_il_get_status_reg_bit :: "string \<Rightarrow> RzILOpPure option" where
  "sh_il_get_status_reg_bit b = ITE (VARG (Some b)) SH_TRUE SH_FALSE"

definition sh_il_get_status_reg :: "RzILOpPure option" where
  "sh_il_get_status_reg =
    (let val = SH_U_REG 0;
         val = LOGOR (UNSIGNED SH_REG_SIZE (sh_il_get_status_reg_bit SH_SR_D)) val;
         val = SHIFTL0 val (SH_U_REG 1);
         val = LOGOR (UNSIGNED SH_REG_SIZE (sh_il_get_status_reg_bit SH_SR_R)) val;
         val = SHIFTL0 val (SH_U_REG 1);
         val = LOGOR (UNSIGNED SH_REG_SIZE (sh_il_get_status_reg_bit SH_SR_B)) val;
         val = SHIFTL0 val (SH_U_REG 13);
         val = LOGOR (UNSIGNED SH_REG_SIZE (sh_il_get_status_reg_bit SH_SR_F)) val;
         val = SHIFTL0 val (SH_U_REG 6);
         val = LOGOR (UNSIGNED SH_REG_SIZE (sh_il_get_status_reg_bit SH_SR_M)) val;
         val = SHIFTL0 val (SH_U_REG 1);
         val = LOGOR (UNSIGNED SH_REG_SIZE (sh_il_get_status_reg_bit SH_SR_Q)) val;
         val = SHIFTL0 val (SH_U_REG 4);
         val = LOGOR (UNSIGNED SH_REG_SIZE (sh_il_get_status_reg_bit SH_SR_I)) val;
         val = SHIFTL0 val (SH_U_REG 3);
         val = LOGOR (UNSIGNED SH_REG_SIZE (sh_il_get_status_reg_bit SH_SR_S)) val;
         val = SHIFTL0 val (SH_U_REG 1);
         val = LOGOR (UNSIGNED SH_REG_SIZE (sh_il_get_status_reg_bit SH_SR_T)) val
     in val)"

definition sh_il_set_status_reg :: "RzILOpPure option \<Rightarrow> RzILOpEffect option" where
  "sh_il_set_status_reg val0 =
    (let val = val0;
         eff = SETG (Some SH_SR_T) (NON_ZERO (LOGAND (SH_U_REG 0x1) val));
         val = SHIFTR0 (DUP val) (SH_U_REG 1);
         eff = SEQ2 eff (SETG (Some SH_SR_S) (NON_ZERO (LOGAND (SH_U_REG 0x1) val)));
         val = SHIFTR0 (DUP val) (SH_U_REG 3);
         eff = SEQ2 eff (SETG (Some SH_SR_I) (NON_ZERO (LOGAND (SH_U_REG 0xf) val)));
         val = SHIFTR0 (DUP val) (SH_U_REG 4);
         eff = SEQ2 eff (SETG (Some SH_SR_Q) (NON_ZERO (LOGAND (SH_U_REG 0x1) val)));
         val = SHIFTR0 (DUP val) (SH_U_REG 1);
         eff = SEQ2 eff (SETG (Some SH_SR_M) (NON_ZERO (LOGAND (SH_U_REG 0x1) val)));
         val = SHIFTR0 (DUP val) (SH_U_REG 6);
         eff = SEQ2 eff (SETG (Some SH_SR_F) (NON_ZERO (LOGAND (SH_U_REG 0x1) val)));
         val = SHIFTR0 (DUP val) (SH_U_REG 13);
         eff = SEQ2 eff (SETG (Some SH_SR_B) (NON_ZERO (LOGAND (SH_U_REG 0x1) val)));
         val = SHIFTR0 (DUP val) (SH_U_REG 1);
         eff = SEQ2 eff (SETG (Some SH_SR_R) (NON_ZERO (LOGAND (SH_U_REG 0x1) val)));
         val = SHIFTR0 (DUP val) (SH_U_REG 1);
         eff = SEQ2 eff (SETG (Some SH_SR_D) (NON_ZERO (LOGAND (SH_U_REG 0x1) val)))
     in eff)"

definition sh_il_get_reg :: "nat \<Rightarrow> RzILOpPure option" where
  "sh_il_get_reg reg =
    (if \<not> sh_valid_gpr reg then None
     else if \<not> sh_banked_reg reg then
       (if reg = SH_REG_IND_SR then sh_il_get_status_reg
        else VARG (Some (sh_registers ! reg)))
     else
       (let condition = AND (VARG (Some SH_SR_D)) (VARG (Some SH_SR_R))
        in ITE condition (VARG (sh_get_banked_reg reg 1)) (VARG (sh_get_banked_reg reg 0))))"

definition sh_il_set_reg :: "nat \<Rightarrow> RzILOpPure option \<Rightarrow> RzILOpEffect option" where
  "sh_il_set_reg reg val =
    (if \<not> sh_valid_gpr reg then None
     else if \<not> sh_banked_reg reg then
       (if reg = SH_REG_IND_SR then sh_il_set_status_reg val
        else SETG (Some (sh_registers ! reg)) val)
     else
       (let condition = AND (VARG (Some SH_SR_D)) (VARG (Some SH_SR_R))
        in BRANCH condition (SETG (sh_get_banked_reg reg 1) val)
                            (SETG (sh_get_banked_reg reg 0) (DUP val))))"

definition sh_il_get_effective_addr_pc :: "SHParam \<Rightarrow> SHScaling \<Rightarrow> nat \<Rightarrow> RzILOpPure option" where
  "sh_il_get_effective_addr_pc param scaling pc =
    (case mode param of
       SH_REG_INDIRECT \<Rightarrow> sh_il_get_reg (param0 param)
     | SH_REG_INDIRECT_I \<Rightarrow> sh_il_get_reg (param0 param)
     | SH_REG_INDIRECT_D \<Rightarrow> sh_il_get_reg (param0 param)
     | SH_REG_INDIRECT_DISP \<Rightarrow>
         ADD (sh_il_get_reg (param0 param))
             (MUL (SH_U_ADDR (param1 param)) (SH_U_ADDR (sh_scaling_size scaling)))
     | SH_REG_INDIRECT_INDEXED \<Rightarrow>
         ADD (sh_il_get_reg SH_REG_IND_R0) (sh_il_get_reg (param0 param))
     | SH_GBR_INDIRECT_DISP \<Rightarrow>
         ADD (VARG (Some ''gbr''))
             (MUL (SH_U_ADDR (param0 param)) (SH_U_ADDR (sh_scaling_size scaling)))
     | SH_GBR_INDIRECT_INDEXED \<Rightarrow>
         ADD (VARG (Some ''gbr'')) (sh_il_get_reg SH_REG_IND_R0)
     | SH_PC_RELATIVE_DISP \<Rightarrow>
         (let pcbv = SH_U_ADDR pc;
              pcbv = (if scaling = SH_SCALING_L then LOGAND pcbv (SH_U_ADDR 0xfffffffc) else pcbv);
              pcbv = ADD pcbv (SH_U_ADDR 4)
          in ADD pcbv (MUL (SH_U_ADDR (param0 param)) (SH_U_ADDR (sh_scaling_size scaling))))
     | SH_PC_RELATIVE8 \<Rightarrow>
         (let relative = SIGNED SH_ADDR_SIZE (SHIFTL0 (SN_bitv 8 (int (param0 param))) (UN_bitv 8 1))
          in ADD (ADD (SH_U_ADDR pc) (SH_U_ADDR 4)) relative)
     | SH_PC_RELATIVE12 \<Rightarrow>
         (let relative = SIGNED SH_ADDR_SIZE (SHIFTL0 (SN_bitv 12 (int (param0 param))) (UN_bitv 8 1))
          in ADD (ADD (SH_U_ADDR pc) (SH_U_ADDR 4)) relative)
     | SH_PC_RELATIVE_REG \<Rightarrow>
         ADD (ADD (SH_U_ADDR pc) (SH_U_ADDR 4)) (sh_il_get_reg (param0 param))
     | _ \<Rightarrow> None)"

record SHParamHelper =
  shp_pre :: "RzILOpEffect option"
  shp_pure :: "RzILOpPure option"
  shp_post :: "RzILOpEffect option"

definition sh_il_get_param_pc :: "SHParam \<Rightarrow> SHScaling \<Rightarrow> nat \<Rightarrow> SHParamHelper" where
  "sh_il_get_param_pc param scaling pc =
    (let ret = \<lparr>shp_pre = None, shp_pure = None, shp_post = None\<rparr>;
         set_pure = (\<lambda>r. r\<lparr>shp_pure := LOADW (BITS_PER_BYTE * sh_scaling_size scaling)
                                         (sh_il_get_effective_addr_pc param scaling pc)\<rparr>)
     in case mode param of
       SH_REG_DIRECT \<Rightarrow>
         (if scaling = SH_SCALING_INVALID \<or> scaling = SH_SCALING_L
          then ret\<lparr>shp_pure := sh_il_get_reg (param0 param)\<rparr>
          else ret\<lparr>shp_pure := UNSIGNED (BITS_PER_BYTE * sh_scaling_size scaling)
                                     (sh_il_get_reg (param0 param))\<rparr>)
     | SH_REG_INDIRECT_I \<Rightarrow>
         set_pure (ret\<lparr>shp_post := sh_il_set_reg (param0 param)
            (ADD (sh_il_get_reg (param0 param)) (SH_U_ADDR (sh_scaling_size scaling)))\<rparr>)
     | SH_REG_INDIRECT_D \<Rightarrow>
         set_pure (ret\<lparr>shp_pre := sh_il_set_reg (param0 param)
            (SUB (sh_il_get_reg (param0 param)) (SH_U_ADDR (sh_scaling_size scaling)))\<rparr>)
     | SH_REG_INDIRECT \<Rightarrow> set_pure ret
     | SH_REG_INDIRECT_DISP \<Rightarrow> set_pure ret
     | SH_REG_INDIRECT_INDEXED \<Rightarrow> set_pure ret
     | SH_GBR_INDIRECT_DISP \<Rightarrow> set_pure ret
     | SH_GBR_INDIRECT_INDEXED \<Rightarrow> set_pure ret
     | SH_PC_RELATIVE_DISP \<Rightarrow> set_pure ret
     | SH_PC_RELATIVE8 \<Rightarrow> set_pure ret
     | SH_PC_RELATIVE12 \<Rightarrow> set_pure ret
     | SH_PC_RELATIVE_REG \<Rightarrow> set_pure ret
     | SH_IMM_U \<Rightarrow> ret\<lparr>shp_pure := SH_U_REG (param0 param)\<rparr>
     | SH_IMM_S \<Rightarrow> ret\<lparr>shp_pure := SH_S_REG (int (param0 param))\<rparr>
     | _ \<Rightarrow> ret)"

definition sh_apply_effects :: "RzILOpEffect option \<Rightarrow> RzILOpEffect option \<Rightarrow> RzILOpEffect option \<Rightarrow> RzILOpEffect option" where
  "sh_apply_effects target pre post =
    (if target = None then
       (if pre \<noteq> None then
          (let target = pre in if post \<noteq> None then SEQ2 target post else target)
        else if post \<noteq> None then post
        else None)
     else
       (let target = (if pre \<noteq> None then SEQ2 pre target else target)
        in if post \<noteq> None then SEQ2 target post else target))"

definition sh_il_set_param_pc :: "SHParam \<Rightarrow> RzILOpPure option \<Rightarrow> SHScaling \<Rightarrow> nat \<Rightarrow> RzILOpEffect option" where
  "sh_il_set_param_pc param val scaling pc =
    (let finish = (\<lambda>ret.
           if ret = None then
             (let ret_h = sh_il_get_param_pc param scaling pc;
                  eff_addr = sh_il_get_effective_addr_pc param scaling pc;
                  ret = STOREW eff_addr val
              in sh_apply_effects ret (shp_pre ret_h) (shp_post ret_h))
           else sh_apply_effects ret None None)
     in case mode param of
       SH_REG_DIRECT \<Rightarrow>
         finish (if scaling = SH_SCALING_INVALID \<or> scaling = SH_SCALING_L
                 then sh_il_set_reg (param0 param) val
                 else sh_il_set_reg (param0 param) (SIGNED SH_REG_SIZE val))
     | SH_REG_INDIRECT \<Rightarrow> finish None
     | SH_REG_INDIRECT_I \<Rightarrow> finish None
     | SH_REG_INDIRECT_D \<Rightarrow> finish None
     | SH_REG_INDIRECT_DISP \<Rightarrow> finish None
     | SH_REG_INDIRECT_INDEXED \<Rightarrow> finish None
     | SH_GBR_INDIRECT_DISP \<Rightarrow> finish None
     | SH_GBR_INDIRECT_INDEXED \<Rightarrow> finish None
     | SH_PC_RELATIVE_DISP \<Rightarrow> finish None
     | SH_PC_RELATIVE8 \<Rightarrow> finish None
     | SH_PC_RELATIVE12 \<Rightarrow> finish None
     | SH_PC_RELATIVE_REG \<Rightarrow> finish None
     | SH_IMM_U \<Rightarrow> None
     | SH_IMM_S \<Rightarrow> None
     | _ \<Rightarrow> None)"

definition sh_il_is_add_carry :: "RzILOpPure option \<Rightarrow> RzILOpPure option \<Rightarrow> RzILOpPure option \<Rightarrow> RzILOpPure option" where
  "sh_il_is_add_carry res x y =
    (let xmsb = MSB x;
         ymsb = MSB y;
         resmsb = MSB res;
         xy = AND xmsb ymsb;
         nres = INV resmsb;
         ry = AND nres (DUP ymsb);
         xr = AND (DUP xmsb) nres;
         orv = OR xy ry;
         orv = OR orv xr
     in orv)"

section \<open>The lifter: instruction generators\<close>

definition sh_il_get_pure_param :: "SHOp \<Rightarrow> nat \<Rightarrow> nat \<Rightarrow> RzILOpPure option" where
  "sh_il_get_pure_param op pc x = shp_pure (sh_il_get_param_pc (op_param op x) (op_scaling op) pc)"

definition sh_il_set_pure_param :: "SHOp \<Rightarrow> nat \<Rightarrow> nat \<Rightarrow> RzILOpPure option \<Rightarrow> RzILOpEffect option" where
  "sh_il_set_pure_param op pc x val = sh_il_set_param_pc (op_param op x) val (op_scaling op) pc"

definition sh_il_div1 :: "SHOp \<Rightarrow> nat \<Rightarrow> RzILOpEffect option" where
  "sh_il_div1 op pc =
    (let old_q = SETL (Some ''old_q'') (sh_il_get_status_reg_bit SH_SR_Q);
         q = SETG (Some SH_SR_Q) (MSB (sh_il_get_pure_param op pc 1));
         shl = sh_il_set_pure_param op pc 1 (SHIFTL0 (sh_il_get_pure_param op pc 1) (SH_U_REG 1));
         ort = sh_il_set_pure_param op pc 1
                 (OR (sh_il_get_pure_param op pc 1)
                     (UNSIGNED SH_REG_SIZE (sh_il_get_status_reg_bit SH_SR_T)));
         init = SEQ4 old_q q shl ort;

         tmp0 = SETL (Some ''tmp0'') (sh_il_get_pure_param op pc 1);
         sub = sh_il_set_pure_param op pc 1
                 (SUB (sh_il_get_pure_param op pc 1) (sh_il_get_pure_param op pc 0));
         tmp1 = SETL (Some ''tmp1'') (UGT (sh_il_get_pure_param op pc 1) (VARL (Some ''tmp0'')));
         q_bit = BRANCH (sh_il_get_status_reg_bit SH_SR_Q)
                   (SETG (Some SH_SR_Q) (IS_ZERO (VARL (Some ''tmp1''))))
                   (SETG (Some SH_SR_Q) (VARL (Some ''tmp1'')));
         q0m0 = SEQ4 tmp0 sub tmp1 q_bit;

         tmp0 = SETL (Some ''tmp0'') (sh_il_get_pure_param op pc 1);
         add = sh_il_set_pure_param op pc 1
                 (ADD (sh_il_get_pure_param op pc 1) (sh_il_get_pure_param op pc 0));
         tmp1 = SETL (Some ''tmp1'') (ULT (sh_il_get_pure_param op pc 1) (VARL (Some ''tmp0'')));
         q_bit = BRANCH (sh_il_get_status_reg_bit SH_SR_Q)
                   (SETG (Some SH_SR_Q) (VARL (Some ''tmp1'')))
                   (SETG (Some SH_SR_Q) (IS_ZERO (VARL (Some ''tmp1''))));
         q0m1 = SEQ4 tmp0 add tmp1 q_bit;

         tmp0 = SETL (Some ''tmp0'') (sh_il_get_pure_param op pc 1);
         add = sh_il_set_pure_param op pc 1
                 (ADD (sh_il_get_pure_param op pc 1) (sh_il_get_pure_param op pc 0));
         tmp1 = SETL (Some ''tmp1'') (ULT (sh_il_get_pure_param op pc 1) (VARL (Some ''tmp0'')));
         q_bit = BRANCH (sh_il_get_status_reg_bit SH_SR_Q)
                   (SETG (Some SH_SR_Q) (IS_ZERO (VARL (Some ''tmp1''))))
                   (SETG (Some SH_SR_Q) (VARL (Some ''tmp1'')));
         q1m0 = SEQ4 tmp0 add tmp1 q_bit;

         tmp0 = SETL (Some ''tmp0'') (sh_il_get_pure_param op pc 1);
         sub = sh_il_set_pure_param op pc 1
                 (SUB (sh_il_get_pure_param op pc 1) (sh_il_get_pure_param op pc 0));
         tmp1 = SETL (Some ''tmp1'') (UGT (sh_il_get_pure_param op pc 1) (VARL (Some ''tmp0'')));
         q_bit = BRANCH (sh_il_get_status_reg_bit SH_SR_Q)
                   (SETG (Some SH_SR_Q) (VARL (Some ''tmp1'')))
                   (SETG (Some SH_SR_Q) (IS_ZERO (VARL (Some ''tmp1''))));
         q1m1 = SEQ4 tmp0 sub tmp1 q_bit;

         q0 = BRANCH (sh_il_get_status_reg_bit SH_SR_M) q0m1 q0m0;
         q1 = BRANCH (sh_il_get_status_reg_bit SH_SR_M) q1m1 q1m0;
         q_switch = BRANCH (VARL (Some ''old_q'')) q1 q0
     in SEQ3 init q_switch
          (SETG (Some SH_SR_T)
             (EQ (sh_il_get_status_reg_bit SH_SR_Q) (sh_il_get_status_reg_bit SH_SR_M))))"

definition sh_il_mac :: "SHOp \<Rightarrow> nat \<Rightarrow> RzILOpEffect option" where
  "sh_il_mac op pc =
    (let shp_rm = sh_il_get_param_pc (op_param op 0) (op_scaling op) pc;
         shp_rn = sh_il_get_param_pc (op_param op 1) (op_scaling op) pc;
         eff =
          (if op_scaling op = SH_SCALING_L then
             (let mac = SETL (Some ''mac'')
                          (LOGOR (SHIFTL0 (UNSIGNED (2 * SH_REG_SIZE) (VARG (Some ''mach'')))
                                          (SH_U_REG SH_REG_SIZE))
                                 (UNSIGNED (2 * SH_REG_SIZE) (VARG (Some ''macl''))));
                  mul = MUL (SIGNED (2 * SH_REG_SIZE) (shp_pure shp_rm))
                            (SIGNED (2 * SH_REG_SIZE) (shp_pure shp_rn));
                  add = ADD mul (VARL (Some ''mac''));
                  low = UNSIGNED 48 (LOGAND add (UN_bitv (2 * SH_REG_SIZE) 0xffffffffffff));
                  sat = SIGNED (2 * SH_REG_SIZE) low;
                  eff = SEQ2 mac (BRANCH (sh_il_get_status_reg_bit SH_SR_S)
                                         (SETL (Some ''mac'') sat)
                                         (SETG (Some ''mac'') (DUP add)));
                  lower_bits = UNSIGNED SH_REG_SIZE
                                 (LOGAND (VARL (Some ''mac'')) (UN_bitv (2 * SH_REG_SIZE) 0xffffffff));
                  higher_bits = UNSIGNED SH_REG_SIZE
                                  (SHIFTR0 (VARL (Some ''mac'')) (SH_U_REG SH_REG_SIZE))
              in SEQ3 eff (SETG (Some ''macl'') lower_bits) (SETG (Some ''mach'') higher_bits))
           else if op_scaling op = SH_SCALING_W then
             (let mac = SETL (Some ''mac'')
                          (LOGOR (SHIFTL0 (UNSIGNED (2 * SH_REG_SIZE) (VARG (Some ''mach'')))
                                          (SH_U_REG SH_REG_SIZE))
                                 (UNSIGNED (2 * SH_REG_SIZE) (VARG (Some ''macl''))));
                  mul = UNSIGNED (2 * SH_REG_SIZE)
                          (MUL (SIGNED SH_REG_SIZE (shp_pure shp_rm))
                               (SIGNED SH_REG_SIZE (shp_pure shp_rn)));
                  add = ADD mul (VARG (Some ''mac''));
                  sat_add = ADD (UNSIGNED SH_REG_SIZE (DUP mul)) (VARG (Some ''macl''));
                  lower_bits = UNSIGNED SH_REG_SIZE
                                 (LOGAND add (UN_bitv (2 * SH_REG_SIZE) 0xffffffff));
                  higher_bits = UNSIGNED SH_REG_SIZE (SHIFTR0 (DUP add) (SH_U_REG SH_REG_SIZE))
              in SEQ2 mac (BRANCH (sh_il_get_status_reg_bit SH_SR_S)
                                  (SETG (Some ''macl'') sat_add)
                                  (SEQ2 (SETG (Some ''macl'') lower_bits)
                                        (SETG (Some ''mach'') higher_bits))))
           else None)
     in SEQ3 eff (shp_post shp_rn) (shp_post shp_rm))"

text \<open>
  The generator of LDC reads the privilege bit of the running machine while it builds the
  tree, and may append an event to the machine's log: it takes the machine and returns it.
  The outer \<open>None\<close> is the dereference of the absent bitvector when the privilege bit
  cannot be evaluated.
\<close>

definition rz_il_evaluate_bitv :: "RzILVM \<Rightarrow> RzILOpPure option \<Rightarrow> (nat \<times> nat) option" where
  "rz_il_evaluate_bitv vm op = (case eval_opt vm op of Some (VBitv w a) \<Rightarrow> Some (w, a) | _ \<Rightarrow> None)"

definition rz_il_vm_event_add :: "RzILVM \<Rightarrow> string \<Rightarrow> RzILVM" where
  "rz_il_vm_event_add vm evt = vm\<lparr>vm_events := vm_events vm @ [evt]\<rparr>"

definition sh_il_ldc :: "SHOp \<Rightarrow> nat \<Rightarrow> RzILVM \<Rightarrow> (RzILOpEffect option \<times> RzILVM) option" where
  "sh_il_ldc op pc vm =
    (case rz_il_evaluate_bitv vm (sh_il_get_status_reg_bit SH_SR_D) of
       None \<Rightarrow> None
     | Some priv_bit \<Rightarrow>
        (let state = (if snd priv_bit = 0 then 0x1 else 0x0 :: nat);
             state = state + (if param0 (op_param op 1) \<noteq> SH_REG_IND_GBR then 0x2 else 0x0)
         in if state = 0x3 then
              Some (None, rz_il_vm_event_add vm ''SuperH: RESINST'')
            else if op_scaling op = SH_SCALING_INVALID then
              (if sh_valid_gpr (param0 (op_param op 1))
               then Some (SETG (sh_get_banked_reg (param0 (op_param op 1)) 1)
                               (sh_il_get_pure_param op pc 0), vm)
               else Some (sh_il_set_pure_param op pc 1 (sh_il_get_pure_param op pc 0), vm))
            else if op_scaling op = SH_SCALING_L then
              (let rm = sh_il_get_param_pc (op_param op 0) (op_scaling op) pc
               in if sh_valid_gpr (param0 (op_param op 1))
                  then Some (SEQ2 (SETG (sh_get_banked_reg (param0 (op_param op 1)) 1) (shp_pure rm))
                                  (shp_post rm), vm)
                  else Some (SEQ2 (sh_il_set_pure_param op pc 1 (shp_pure rm)) (shp_post rm), vm))
            else Some (NOP, vm)))"

section \<open>Register profiles and the binding deriver\<close>

text \<open>
  Modelled from the spec: the register file (\<^verbatim>\<open>rz_reg.h\<close>, \<^verbatim>\<open>reg.c\<close>), the bitvector
  library and the list library are not part of the source file. A register descriptor has
  a name, a class, a bit offset and a bit size (spec, section 3); a profile is one ordered
  list of descriptors per class, with the name of the program counter when one is
  designated; the storage is one bit arena per class. A bitvector is a length and an
  unsigned number, bit 0 the least significant. Allocation never fails in the model, so
  the paths of the source that leave on a failed allocation are not taken.
\<close>

record RzRegItem =
  item_name :: string
  item_type :: nat
  item_size :: nat
  item_offset :: nat

record RzReg =
  regset :: "RzRegItem list list"
  reg_name_pc :: "string option"
  reg_arena :: "nat \<Rightarrow> nat \<Rightarrow> bool"

definition rz_reg_get_name_pc :: "RzReg \<Rightarrow> string option" where
  "rz_reg_get_name_pc reg = reg_name_pc reg"

definition rz_reg_get :: "RzReg \<Rightarrow> string \<Rightarrow> RzRegItem option" where
  "rz_reg_get reg name = find (\<lambda>it. item_name it = name) (concat (regset reg))"

text \<open>
  Modelled from the spec: \<^verbatim>\<open>rz_reg_filter_items_covered\<close> is not part of the source file.
  It drops every register that lies entirely inside another register of the same list
  and is smaller than it (spec, section 4.6, step 3).
\<close>

definition item_covered_by :: "RzRegItem \<Rightarrow> RzRegItem \<Rightarrow> bool" where
  "item_covered_by a b =
    (item_offset b \<le> item_offset a \<and>
     item_offset a + item_size a \<le> item_offset b + item_size b \<and>
     item_size a < item_size b)"

definition rz_reg_filter_items_covered :: "RzRegItem list \<Rightarrow> RzRegItem list" where
  "rz_reg_filter_items_covered regs =
    filter (\<lambda>a. \<not> list_ex (\<lambda>b. item_covered_by a b) regs) regs"

text \<open>
  Modelled from the spec: \<^verbatim>\<open>rz_list_sort\<close> with \<^verbatim>\<open>reg_offset_cmp\<close> orders a list by
  ascending offset (spec, section 4.6, step 5); the order of equal offsets is the list's.
\<close>

definition rz_list_sort_offset :: "RzRegItem list \<Rightarrow> RzRegItem list" where
  "rz_list_sort_offset items = sort_key item_offset items"

text \<open>The first loop over a class: every 1-bit register whose offset no flag has yet.\<close>

fun bind_flags_loop :: "RzRegItem list \<Rightarrow> RzRegItem list \<Rightarrow> RzRegItem list" where
  "bind_flags_loop flags [] = flags"
| "bind_flags_loop flags (item # rest) =
    (if item_size item \<noteq> 1 then bind_flags_loop flags rest
     else if list_ex (\<lambda>item2. item_offset item2 = item_offset item) flags
       then bind_flags_loop flags rest
     else bind_flags_loop (flags @ [item]) rest)"

definition bind_flags :: "RzRegItem list \<Rightarrow> RzRegItem list" where
  "bind_flags regs = bind_flags_loop [] regs"

text \<open>The second loop: the registers that contain no bound flag.\<close>

definition bind_nonflags :: "RzRegItem list \<Rightarrow> RzRegItem list \<Rightarrow> RzRegItem list" where
  "bind_nonflags flags regs =
    filter (\<lambda>item. \<not> list_ex (\<lambda>flag. item_offset flag \<ge> item_offset item \<and>
                                      item_offset flag < item_offset item + item_size item) flags)
      regs"

text \<open>The last loop, over the sorted list, with the register bound last in \<open>prev\<close>.\<close>

fun bind_scan :: "string option \<Rightarrow> RzRegItem option \<Rightarrow> RzRegItem list \<Rightarrow> RzRegItem list" where
  "bind_scan pc prev [] = []"
| "bind_scan pc prev (item # rest) =
    (if (case prev of None \<Rightarrow> False
         | Some p \<Rightarrow> item_offset p + item_size p > item_offset item)
       then bind_scan pc prev rest
     else if (case pc of None \<Rightarrow> False | Some n \<Rightarrow> item_name item = n)
       then bind_scan pc prev rest
     else item # bind_scan pc (Some item) rest)"

definition bind_regs :: "string option \<Rightarrow> RzRegItem list \<Rightarrow> RzRegItem list" where
  "bind_regs pc regs =
    (let flags = bind_flags regs;
         nonflags = bind_nonflags flags regs;
         items = rz_reg_filter_items_covered nonflags;
         items = rz_list_sort_offset items
     in bind_scan pc None items)"

definition binding_item :: "RzRegItem \<Rightarrow> string \<times> nat" where
  "binding_item item = (item_name item, item_size item)"

definition rz_il_reg_binding_derive :: "RzReg \<Rightarrow> (string \<times> nat) list" where
  "rz_il_reg_binding_derive reg =
    concat (map (\<lambda>regs. map binding_item (bind_flags regs)
                        @ map binding_item (bind_regs (rz_reg_get_name_pc reg) regs))
                (regset reg))"

section \<open>The register sync engine\<close>

definition rz_bv_new_zero :: "nat \<Rightarrow> nat \<times> nat" where
  "rz_bv_new_zero n = (n, 0)"

definition rz_bv_len :: "nat \<times> nat \<Rightarrow> nat" where
  "rz_bv_len bv = fst bv"

text \<open>
  \<^verbatim>\<open>rz_bv_copy_nbits(src, 0, dst, 0, nbit)\<close>: the low \<open>nbit\<close> bits of \<open>dst\<close> become those of
  \<open>src\<close>; here the destination is returned.
\<close>

definition rz_bv_copy_nbits :: "nat \<times> nat \<Rightarrow> nat \<times> nat \<Rightarrow> nat \<Rightarrow> nat \<times> nat" where
  "rz_bv_copy_nbits src dst nbit =
    (fst dst, (snd dst div 2 ^ nbit) * 2 ^ nbit + snd src mod 2 ^ nbit)"

definition rz_reg_set_bv :: "RzReg \<Rightarrow> RzRegItem \<Rightarrow> nat \<times> nat \<Rightarrow> bool \<times> RzReg" where
  "rz_reg_set_bv reg ri bv =
    (if rz_bv_len bv \<noteq> item_size ri then (False, reg)
     else (True, reg\<lparr>reg_arena := (\<lambda>t k.
             if t = item_type ri \<and> item_offset ri \<le> k \<and> k < item_offset ri + item_size ri
             then odd (snd bv div 2 ^ (k - item_offset ri))
             else reg_arena reg t k)\<rparr>))"

definition rz_reg_get_bv :: "RzReg \<Rightarrow> RzRegItem \<Rightarrow> nat \<times> nat" where
  "rz_reg_get_bv reg ri =
    (item_size ri,
     horner_sum of_bool 2
       (map (\<lambda>k. reg_arena reg (item_type ri) (item_offset ri + k)) [0..<item_size ri]))"

definition rz_il_find_var_by_name :: "RzILVM \<Rightarrow> string \<Rightarrow> string option" where
  "rz_il_find_var_by_name vm name = (if name \<in> set (vm_vars vm) then Some name else None)"

definition rz_il_hash_find_val_by_name :: "RzILVM \<Rightarrow> string \<Rightarrow> RzILVal option" where
  "rz_il_hash_find_val_by_name vm name = vm_global_bind vm name"

definition rz_il_vm_fortify_bitv :: "RzILVM \<Rightarrow> nat \<times> nat \<Rightarrow> RzILVal" where
  "rz_il_vm_fortify_bitv vm bv = VBitv (fst bv) (snd bv)"

definition rz_il_hash_bind :: "RzILVM \<Rightarrow> string \<Rightarrow> RzILVal \<Rightarrow> RzILVM" where
  "rz_il_hash_bind vm var val = vm\<lparr>vm_global_bind := (vm_global_bind vm)(var := Some val)\<rparr>"

text \<open>The body of the loop of \<open>rz_il_vm_sync_to_reg\<close>, on the flag and the register file.\<close>

definition sync_to_reg_item :: "RzILVM \<Rightarrow> bool \<times> RzReg \<Rightarrow> string \<times> nat \<Rightarrow> bool \<times> RzReg" where
  "sync_to_reg_item vm st item =
    (let perfect = fst st; reg = snd st
     in case rz_reg_get reg (fst item) of
          None \<Rightarrow> (False, reg)
        | Some ri \<Rightarrow>
           (case rz_il_hash_find_val_by_name vm (fst item) of
              Some (VBitv l b) \<Rightarrow>
                (let bv = (l, b);
                     perfect = (if rz_bv_len bv \<noteq> item_size ri then False else perfect);
                     bv = (if rz_bv_len bv \<noteq> item_size ri
                           then rz_bv_copy_nbits bv (rz_bv_new_zero (item_size ri))
                                  (min (rz_bv_len bv) (item_size ri))
                           else bv);
                     r = rz_reg_set_bv reg ri bv
                 in (perfect \<and> fst r, snd r))
            | _ \<Rightarrow> (False, snd (rz_reg_set_bv reg ri (rz_bv_new_zero (item_size ri))))))"

definition sync_to_reg_pc :: "RzILVM \<Rightarrow> RzReg \<Rightarrow> bool \<times> RzReg" where
  "sync_to_reg_pc vm reg =
    (case rz_reg_get_name_pc reg of
       None \<Rightarrow> (False, reg)
     | Some pc \<Rightarrow>
        (case rz_reg_get reg pc of
           None \<Rightarrow> (False, reg)
         | Some ri \<Rightarrow>
            (let pcbv = rz_bv_new_zero (item_size ri);
                 perfect = (rz_bv_len pcbv = rz_bv_len (vm_pc vm));
                 pcbv = rz_bv_copy_nbits (vm_pc vm) pcbv (min (rz_bv_len pcbv) (rz_bv_len (vm_pc vm)))
             in (perfect, snd (rz_reg_set_bv reg ri pcbv)))))"

definition rz_il_vm_sync_to_reg :: "RzILVM \<Rightarrow> RzReg \<Rightarrow> bool \<times> RzReg" where
  "rz_il_vm_sync_to_reg vm reg =
    (let st = sync_to_reg_pc vm reg
     in case vm_reg_binding vm of
          None \<Rightarrow> (False, snd st)
        | Some rb \<Rightarrow> fold (\<lambda>item st. sync_to_reg_item vm st item) rb st)"

text \<open>
  The flag and the register file of \<open>rz_il_vm_sync_to_reg\<close> after the first \<open>k\<close> iterations
  of its loop over the binding \<open>rb\<close>.
\<close>

definition sync_to_reg_loop :: "RzILVM \<Rightarrow> RzReg \<Rightarrow> (string \<times> nat) list \<Rightarrow> nat \<Rightarrow> bool \<times> RzReg" where
  "sync_to_reg_loop vm reg rb k =
    fold (\<lambda>item st. sync_to_reg_item vm st item) (take k rb) (sync_to_reg_pc vm reg)"

text \<open>The body of the loop of \<open>rz_il_vm_sync_from_reg\<close>.\<close>

definition sync_from_reg_item :: "RzReg \<Rightarrow> RzILVM \<Rightarrow> string \<times> nat \<Rightarrow> RzILVM" where
  "sync_from_reg_item reg vm item =
    (case rz_il_find_var_by_name vm (fst item) of
       None \<Rightarrow> vm
     | Some var \<Rightarrow>
        (let bv = (case rz_reg_get reg (fst item) of
                     Some ri \<Rightarrow> rz_reg_get_bv reg ri
                   | None \<Rightarrow> rz_bv_new_zero (snd item));
             bv = (if rz_bv_len bv \<noteq> snd item
                   then rz_bv_copy_nbits bv (rz_bv_new_zero (snd item))
                          (min (rz_bv_len bv) (snd item))
                   else bv)
         in rz_il_hash_bind vm var (rz_il_vm_fortify_bitv vm bv)))"

definition sync_from_reg_pc :: "RzILVM \<Rightarrow> RzReg \<Rightarrow> RzILVM" where
  "sync_from_reg_pc vm reg =
    (case rz_reg_get_name_pc reg of
       None \<Rightarrow> vm
     | Some pc \<Rightarrow>
        (case rz_reg_get reg pc of
           None \<Rightarrow> vm
         | Some ri \<Rightarrow>
            (let cleared = (rz_bv_len (vm_pc vm), 0);
                 pcbv = rz_reg_get_bv reg ri
             in vm\<lparr>vm_pc := rz_bv_copy_nbits pcbv cleared
                               (min (rz_bv_len pcbv) (rz_bv_len cleared))\<rparr>)))"

definition rz_il_vm_sync_from_reg :: "RzILVM \<Rightarrow> RzReg \<Rightarrow> RzILVM" where
  "rz_il_vm_sync_from_reg vm reg =
    (let vm = sync_from_reg_pc vm reg
     in case vm_reg_binding vm of
          None \<Rightarrow> vm
        | Some rb \<Rightarrow> fold (\<lambda>item vm. sync_from_reg_item reg vm item) rb vm)"

text \<open>
  The words of the spec for a clean push (section 4.7): an entry is clean when its
  register exists and its variable is a bitvector of the register's width; the program
  counter is clean when it is designated, exists, and has the width of the machine's.
\<close>

definition spec_entry_clean :: "RzILVM \<Rightarrow> RzReg \<Rightarrow> string \<times> nat \<Rightarrow> bool" where
  "spec_entry_clean vm reg item =
    (case rz_reg_get reg (fst item) of
       None \<Rightarrow> False
     | Some ri \<Rightarrow>
        (case vm_global_bind vm (fst item) of
           Some (VBitv l b) \<Rightarrow> l = item_size ri
         | _ \<Rightarrow> False))"

definition spec_pc_clean :: "RzILVM \<Rightarrow> RzReg \<Rightarrow> bool" where
  "spec_pc_clean vm reg =
    (case reg_name_pc reg of
       None \<Rightarrow> False
     | Some pc \<Rightarrow>
        (case rz_reg_get reg pc of
           None \<Rightarrow> False
         | Some ri \<Rightarrow> item_size ri = fst (vm_pc vm)))"

text \<open>
  The words of the spec for the coercion of a pushed value (section 4.7): a value of
  \<open>l\<close> bits, the number \<open>b\<close>, pushed to a register of \<open>sz\<close> bits is zero-extended when it
  is narrower (the number is kept) and truncated to its low-order \<open>sz\<close> bits when it is
  wider. Two registers overlap when they lie in the same class and their bit ranges
  meet.
\<close>

definition spec_coerce :: "nat \<Rightarrow> nat \<Rightarrow> nat \<Rightarrow> nat" where
  "spec_coerce l b sz = (if l \<le> sz then b else b mod 2 ^ sz)"

definition regs_overlap :: "RzRegItem \<Rightarrow> RzRegItem \<Rightarrow> bool" where
  "regs_overlap a b =
    (item_type a = item_type b \<and> item_offset a < item_offset b + item_size b
      \<and> item_offset b < item_offset a + item_size a)"

text \<open>
  The register banks, in the words of the spec (section 1, banked register sets) and of
  the architecture: general register \<open>k\<close> is the variable \<open>r\<close>\<open>k\<close>; the first eight registers
  have a second copy, bank 1, in the variable \<open>r\<close>\<open>k\<close>\<open>b\<close>. On a machine whose mode flag is
  \<open>md\<close> and whose bank flag is \<open>rb\<close>, register \<open>k\<close> is the bank-1 variable when \<open>k\<close> is below
  eight and both flags are set, and the bank-0 variable otherwise.
\<close>

definition spec_bank0_var :: "nat \<Rightarrow> string" where
  "spec_bank0_var k =
    [''r0'', ''r1'', ''r2'', ''r3'', ''r4'', ''r5'', ''r6'', ''r7'', ''r8'', ''r9'',
     ''r10'', ''r11'', ''r12'', ''r13'', ''r14'', ''r15''] ! k"

definition spec_bank1_var :: "nat \<Rightarrow> string" where
  "spec_bank1_var k =
    [''r0b'', ''r1b'', ''r2b'', ''r3b'', ''r4b'', ''r5b'', ''r6b'', ''r7b''] ! k"

definition spec_reg_var :: "bool \<Rightarrow> bool \<Rightarrow> nat \<Rightarrow> string" where
  "spec_reg_var md rb k = (if k < 8 \<and> md \<and> rb then spec_bank1_var k else spec_bank0_var k)"

text \<open>
  The words of the spec for the status word (section 4.2): the nine flags at their bit
  positions 0, 1, 4, 8, 9, 15, 28, 29 and 30.
\<close>

definition spec_status_word ::
  "bool \<Rightarrow> bool \<Rightarrow> bool \<Rightarrow> bool \<Rightarrow> bool \<Rightarrow> bool \<Rightarrow> bool \<Rightarrow> bool \<Rightarrow> bool \<Rightarrow> nat" where
  "spec_status_word t s i q m f b r d =
     of_bool t + 2 * of_bool s + 16 * of_bool i + 256 * of_bool q + 512 * of_bool m
     + 32768 * of_bool f + 268435456 * of_bool b + 536870912 * of_bool r + 1073741824 * of_bool d"

section \<open>Example machines and operands\<close>

definition vm_init :: RzILVM where
  "vm_init = \<lparr>vm_pc = (32, 0), vm_vars = [], vm_global_bind = (\<lambda>_. None),
     vm_local_bind = (\<lambda>_. None), vm_memory = (\<lambda>_. 0), vm_big_endian = False,
     vm_events = [], vm_reg_binding = None\<rparr>"

definition vm_bank :: RzILVM where
  "vm_bank = vm_init\<lparr>vm_global_bind :=
     [SH_SR_D \<mapsto> VBool True, SH_SR_R \<mapsto> VBool True, ''r3'' \<mapsto> VBitv 32 5, ''r3b'' \<mapsto> VBitv 32 9]\<rparr>"

definition vm_bank0 :: RzILVM where
  "vm_bank0 = vm_init\<lparr>vm_global_bind :=
     [SH_SR_D \<mapsto> VBool True, SH_SR_R \<mapsto> VBool False, ''r3'' \<mapsto> VBitv 32 5, ''r3b'' \<mapsto> VBitv 32 9]\<rparr>"

definition reg_x86 :: RzReg where
  "reg_x86 = \<lparr>regset =
      [[\<lparr>item_name = ''eax'', item_type = 0, item_size = 32, item_offset = 0\<rparr>,
        \<lparr>item_name = ''ax'', item_type = 0, item_size = 16, item_offset = 0\<rparr>,
        \<lparr>item_name = ''odd'', item_type = 0, item_size = 32, item_offset = 16\<rparr>,
        \<lparr>item_name = ''eip'', item_type = 0, item_size = 32, item_offset = 96\<rparr>,
        \<lparr>item_name = ''zf'', item_type = 0, item_size = 1, item_offset = 70\<rparr>,
        \<lparr>item_name = ''eflags'', item_type = 0, item_size = 32, item_offset = 64\<rparr>,
        \<lparr>item_name = ''ebx'', item_type = 0, item_size = 32, item_offset = 32\<rparr>]],
     reg_name_pc = Some ''eip'', reg_arena = (\<lambda>t k. False)\<rparr>"

definition reg_pc_flag :: RzReg where
  "reg_pc_flag = \<lparr>regset = [[\<lparr>item_name = ''pc'', item_type = 0, item_size = 1, item_offset = 0\<rparr>]],
     reg_name_pc = Some ''pc'', reg_arena = (\<lambda>t k. False)\<rparr>"

definition reg_sh :: RzReg where
  "reg_sh = \<lparr>regset =
      [[\<lparr>item_name = ''r0'', item_type = 0, item_size = 32, item_offset = 0\<rparr>,
        \<lparr>item_name = ''r1'', item_type = 0, item_size = 32, item_offset = 32\<rparr>,
        \<lparr>item_name = ''pc'', item_type = 0, item_size = 32, item_offset = 64\<rparr>]],
     reg_name_pc = Some ''pc'', reg_arena = (\<lambda>t k. False)\<rparr>"

definition vm_sync :: RzILVM where
  "vm_sync = vm_init\<lparr>vm_vars := [''r0'', ''r1'', ''ghost''],
     vm_global_bind := [''r0'' \<mapsto> VBitv 8 0xab, ''r1'' \<mapsto> VBitv 32 7, ''ghost'' \<mapsto> VBitv 8 0xcd],
     vm_reg_binding := Some [(''ghost'', 8), (''r1'', 32), (''r0'', 32)]\<rparr>"

definition vm_push :: RzILVM where
  "vm_push = vm_init\<lparr>vm_vars := [''r0'', ''r1'', ''ghost''],
     vm_global_bind := [''r0'' \<mapsto> VBitv 8 0xab, ''r1'' \<mapsto> VBitv 40 0x123456789a,
                        ''ghost'' \<mapsto> VBitv 8 0xcd],
     vm_reg_binding := Some [(''r0'', 32), (''ghost'', 8), (''r1'', 32)]\<rparr>"

definition op_ldc_gbr :: SHOp where
  "op_ldc_gbr = \<lparr>op_param0 = \<lparr>mode = SH_REG_DIRECT, param0 = 1, param1 = 0\<rparr>,
                  op_param1 = \<lparr>mode = SH_REG_DIRECT, param0 = SH_REG_IND_GBR, param1 = 0\<rparr>,
                  op_scaling = SH_SCALING_INVALID\<rparr>"

definition vm_user :: RzILVM where
  "vm_user = vm_init\<lparr>vm_global_bind :=
     [SH_SR_D \<mapsto> VBool False, SH_SR_R \<mapsto> VBool False, ''r1'' \<mapsto> VBitv 32 5, ''gbr'' \<mapsto> VBitv 32 0]\<rparr>"

definition vm_priv :: RzILVM where
  "vm_priv = vm_init\<lparr>vm_global_bind :=
     [SH_SR_D \<mapsto> VBool True, SH_SR_R \<mapsto> VBool False, ''r1'' \<mapsto> VBitv 32 5, ''gbr'' \<mapsto> VBitv 32 0]\<rparr>"

definition op_mac_l :: SHOp where
  "op_mac_l = \<lparr>op_param0 = \<lparr>mode = SH_REG_INDIRECT_I, param0 = 1, param1 = 0\<rparr>,
                op_param1 = \<lparr>mode = SH_REG_INDIRECT_I, param0 = 2, param1 = 0\<rparr>,
                op_scaling = SH_SCALING_L\<rparr>"

definition vm_mac :: RzILVM where
  "vm_mac = vm_init\<lparr>vm_global_bind :=
     [SH_SR_D \<mapsto> VBool False, SH_SR_R \<mapsto> VBool False, SH_SR_S \<mapsto> VBool False,
      ''r1'' \<mapsto> VBitv 32 0x100, ''r2'' \<mapsto> VBitv 32 0x200,
      ''mach'' \<mapsto> VBitv 32 0, ''macl'' \<mapsto> VBitv 32 5],
     vm_memory := (\<lambda>a. if a = 0x100 then 2 else if a = 0x200 then 3 else 0)\<rparr>"

definition op_div1 :: SHOp where
  "op_div1 = \<lparr>op_param0 = \<lparr>mode = SH_REG_DIRECT, param0 = 1, param1 = 0\<rparr>,
               op_param1 = \<lparr>mode = SH_REG_DIRECT, param0 = 9, param1 = 0\<rparr>,
               op_scaling = SH_SCALING_INVALID\<rparr>"

definition vm_div :: RzILVM where
  "vm_div = vm_init\<lparr>vm_global_bind :=
     [SH_SR_D \<mapsto> VBool False, SH_SR_R \<mapsto> VBool False,
      SH_SR_Q \<mapsto> VBool True, SH_SR_M \<mapsto> VBool False, SH_SR_T \<mapsto> VBool True,
      ''r1'' \<mapsto> VBitv 32 3, ''r9'' \<mapsto> VBitv 32 10]\<rparr>"

definition vm_mac_sat :: RzILVM where
  "vm_mac_sat = vm_init\<lparr>vm_global_bind :=
     [SH_SR_D \<mapsto> VBool False, SH_SR_R \<mapsto> VBool False, SH_SR_S \<mapsto> VBool True,
      ''r1'' \<mapsto> VBitv 32 0x100, ''r2'' \<mapsto> VBitv 32 0x200,
      ''mach'' \<mapsto> VBitv 32 0x7fff, ''macl'' \<mapsto> VBitv 32 0xffffffff],
     vm_memory := (\<lambda>a. if a = 0x100 then 1 else if a = 0x200 then 1 else 0)\<rparr>"

section \<open>Simplification rules for the builder and the evaluator\<close>

lemma op1_simps [simp]: "op1 f None = None" "op1 f (Some a) = Some (f a)"
  by (simp_all add: op1_def)

lemma op2_simps [simp]:
  "op2 f None y = None" "op2 f x None = None" "op2 f (Some a) (Some b) = Some (f a b)"
  by (simp_all add: op2_def split: option.splits)

lemma op3_simps [simp]:
  "op3 f None y z = None" "op3 f x None z = None" "op3 f x y None = None"
  "op3 f (Some a) (Some b) (Some c) = Some (f a b c)"
  by (simp_all add: op3_def split: option.splits)

lemmas builder_defs = UN_bitv_def SN_bitv_def VARG_def VARL_def DUP_def ITE_def
  AND_def OR_def XOR_def INV_def MSB_def IS_ZERO_def NON_ZERO_def LOGAND_def LOGOR_def
  SHIFTL0_def SHIFTR0_def UNSIGNED_def SIGNED_def ADD_def SUB_def MUL_def EQ_def UGT_def ULT_def
  LOADW_def NOP_def SETG_def SETL_def STOREW_def BRANCH_def SEQ2_def SEQ3_def SEQ4_def
  SH_U_ADDR_def SH_U_REG_def SH_S_REG_def SH_TRUE_def SH_FALSE_def

lemmas header_defs = SH_REG_SIZE_def SH_ADDR_SIZE_def BITS_PER_BYTE_def SH_GPR_COUNT_def
  SH_BANKED_REG_COUNT_def SH_REG_IND_R0_def SH_REG_IND_SR_def SH_REG_IND_GBR_def

lemmas flag_defs = SH_SR_T_def SH_SR_S_def SH_SR_I_def SH_SR_Q_def SH_SR_M_def SH_SR_F_def
  SH_SR_B_def SH_SR_R_def SH_SR_D_def

lemmas eval_defs = bool1_def bool2_def bitv1_def bitv2_def shift2_def exec_opt_def eval_opt_def

section \<open>The status word\<close>

lemma or_bit0_even: "a \<le> 1 \<Longrightarrow> or a (2 * y) = a + 2 * (y::nat)"
proof -
  assume "a \<le> 1"
  then have "a = 0 \<or> a = 1" by arith
  then show ?thesis
  proof
    assume "a = 0" then show ?thesis by simp
  next
    assume a: "a = 1"
    have "or 1 (2 * y) = 2 * y + of_bool (even (2 * y))" by (rule one_or_eq)
    then show ?thesis using a by simp
  qed
qed

lemma status_bit_unsigned_eval:
  "vm_global_bind vm b = Some (VBool x) \<Longrightarrow>
   eval_opt vm (UNSIGNED SH_REG_SIZE (sh_il_get_status_reg_bit b)) = Some (VBitv 32 (of_bool x))"
  by (simp add: sh_il_get_status_reg_bit_def builder_defs header_defs eval_defs)

lemma pack_step:
  assumes e: "eval_opt vm e = Some (VBitv 32 acc)" and k: "0 < k" "k < 2 ^ 32"
    and bound: "acc * 2 ^ k < 2 ^ 32"
    and x: "vm_global_bind vm b = Some (VBool x)"
  shows "eval_opt vm (LOGOR (UNSIGNED SH_REG_SIZE (sh_il_get_status_reg_bit b)) (SHIFTL0 e (SH_U_REG k)))
         = Some (VBitv 32 (of_bool x + acc * 2 ^ k))"
proof -
  obtain t where t: "e = Some t" "eval_pure vm t = Some (VBitv 32 acc)"
    using e by (cases e) (simp_all add: eval_opt_def)
  obtain j where j: "k = Suc j" using k(1) by (cases k) auto
  have sh: "eval_opt vm (SHIFTL0 e (SH_U_REG k)) = Some (VBitv 32 (acc * 2 ^ k))"
    using t k(2) bound by (simp add: builder_defs header_defs eval_defs)
  have ev: "acc * 2 ^ k = 2 * (acc * 2 ^ j)" by (simp add: j)
  have "or (of_bool x) (acc * 2 ^ k) = of_bool x + acc * 2 ^ k"
    unfolding ev by (rule or_bit0_even) simp
  then show ?thesis
    using sh status_bit_unsigned_eval[OF x]
    by (cases "SHIFTL0 e (SH_U_REG k)")
       (auto simp add: LOGOR_def eval_opt_def bitv2_def UNSIGNED_def sh_il_get_status_reg_bit_def
          ITE_def VARG_def SH_TRUE_def SH_FALSE_def SH_U_REG_def UN_bitv_def)
qed


lemma get_status_reg_eval:
  assumes t: "vm_global_bind vm SH_SR_T = Some (VBool t)" and s: "vm_global_bind vm SH_SR_S = Some (VBool s)"
    and i: "vm_global_bind vm SH_SR_I = Some (VBool i)" and q: "vm_global_bind vm SH_SR_Q = Some (VBool q)"
    and m: "vm_global_bind vm SH_SR_M = Some (VBool m)" and f: "vm_global_bind vm SH_SR_F = Some (VBool f)"
    and b: "vm_global_bind vm SH_SR_B = Some (VBool b)" and r: "vm_global_bind vm SH_SR_R = Some (VBool r)"
    and d: "vm_global_bind vm SH_SR_D = Some (VBool d)"
  shows "eval_opt vm sh_il_get_status_reg = Some (VBitv 32 (spec_status_word t s i q m f b r d))"
proof -
  define tn sn inn qn mn fn bn rn dn where n_defs:
    "tn = (of_bool t :: nat)" "sn = (of_bool s :: nat)" "inn = (of_bool i :: nat)"
    "qn = (of_bool q :: nat)" "mn = (of_bool m :: nat)" "fn = (of_bool f :: nat)"
    "bn = (of_bool b :: nat)" "rn = (of_bool r :: nat)" "dn = (of_bool d :: nat)"
  have le: "tn \<le> 1" "sn \<le> 1" "inn \<le> 1" "qn \<le> 1" "mn \<le> 1" "fn \<le> 1" "bn \<le> 1" "rn \<le> 1" "dn \<le> 1"
    by (simp_all add: n_defs)
  define e1 where "e1 = LOGOR (UNSIGNED SH_REG_SIZE (sh_il_get_status_reg_bit SH_SR_D)) (SH_U_REG 0)"
  define e2 where "e2 = LOGOR (UNSIGNED SH_REG_SIZE (sh_il_get_status_reg_bit SH_SR_R)) (SHIFTL0 e1 (SH_U_REG 1))"
  define e3 where "e3 = LOGOR (UNSIGNED SH_REG_SIZE (sh_il_get_status_reg_bit SH_SR_B)) (SHIFTL0 e2 (SH_U_REG 1))"
  define e4 where "e4 = LOGOR (UNSIGNED SH_REG_SIZE (sh_il_get_status_reg_bit SH_SR_F)) (SHIFTL0 e3 (SH_U_REG 13))"
  define e5 where "e5 = LOGOR (UNSIGNED SH_REG_SIZE (sh_il_get_status_reg_bit SH_SR_M)) (SHIFTL0 e4 (SH_U_REG 6))"
  define e6 where "e6 = LOGOR (UNSIGNED SH_REG_SIZE (sh_il_get_status_reg_bit SH_SR_Q)) (SHIFTL0 e5 (SH_U_REG 1))"
  define e7 where "e7 = LOGOR (UNSIGNED SH_REG_SIZE (sh_il_get_status_reg_bit SH_SR_I)) (SHIFTL0 e6 (SH_U_REG 4))"
  define e8 where "e8 = LOGOR (UNSIGNED SH_REG_SIZE (sh_il_get_status_reg_bit SH_SR_S)) (SHIFTL0 e7 (SH_U_REG 3))"
  define e9 where "e9 = LOGOR (UNSIGNED SH_REG_SIZE (sh_il_get_status_reg_bit SH_SR_T)) (SHIFTL0 e8 (SH_U_REG 1))"
  have shape: "sh_il_get_status_reg = e9"
    by (simp only: sh_il_get_status_reg_def Let_def e1_def e2_def e3_def e4_def e5_def e6_def e7_def
        e8_def e9_def)
  have v1: "eval_opt vm e1 = Some (VBitv 32 dn)"
    using d by (simp add: e1_def n_defs sh_il_get_status_reg_bit_def builder_defs header_defs eval_defs)
  have v2: "eval_opt vm e2 = Some (VBitv 32 (rn + dn * 2 ^ 1))"
    unfolding e2_def n_defs(8) using le by (intro pack_step[OF v1 _ _ _ r]) simp_all
  have v3: "eval_opt vm e3 = Some (VBitv 32 (bn + (rn + dn * 2 ^ 1) * 2 ^ 1))"
    unfolding e3_def n_defs(7) using le by (intro pack_step[OF v2 _ _ _ b]) simp_all
  have v4: "eval_opt vm e4 = Some (VBitv 32 (fn + (bn + (rn + dn * 2 ^ 1) * 2 ^ 1) * 2 ^ 13))"
    unfolding e4_def n_defs(6) using le by (intro pack_step[OF v3 _ _ _ f]) simp_all
  have v5: "eval_opt vm e5 = Some (VBitv 32 (mn + (fn + (bn + (rn + dn * 2 ^ 1) * 2 ^ 1) * 2 ^ 13) * 2 ^ 6))"
    unfolding e5_def n_defs(5) using le by (intro pack_step[OF v4 _ _ _ m]) simp_all
  have v6: "eval_opt vm e6 = Some (VBitv 32
      (qn + (mn + (fn + (bn + (rn + dn * 2 ^ 1) * 2 ^ 1) * 2 ^ 13) * 2 ^ 6) * 2 ^ 1))"
    unfolding e6_def n_defs(4) using le by (intro pack_step[OF v5 _ _ _ q]) simp_all
  have v7: "eval_opt vm e7 = Some (VBitv 32
      (inn + (qn + (mn + (fn + (bn + (rn + dn * 2 ^ 1) * 2 ^ 1) * 2 ^ 13) * 2 ^ 6) * 2 ^ 1) * 2 ^ 4))"
    unfolding e7_def n_defs(3) using le by (intro pack_step[OF v6 _ _ _ i]) simp_all
  have v8: "eval_opt vm e8 = Some (VBitv 32
      (sn + (inn + (qn + (mn + (fn + (bn + (rn + dn * 2 ^ 1) * 2 ^ 1) * 2 ^ 13) * 2 ^ 6) * 2 ^ 1) * 2 ^ 4) * 2 ^ 3))"
    unfolding e8_def n_defs(2) using le by (intro pack_step[OF v7 _ _ _ s]) simp_all
  have v9: "eval_opt vm e9 = Some (VBitv 32
      (tn + (sn + (inn + (qn + (mn + (fn + (bn + (rn + dn * 2 ^ 1) * 2 ^ 1) * 2 ^ 13) * 2 ^ 6) * 2 ^ 1)
          * 2 ^ 4) * 2 ^ 3) * 2 ^ 1))"
    unfolding e9_def n_defs(1) using le by (intro pack_step[OF v8 _ _ _ t]) simp_all
  have "tn + (sn + (inn + (qn + (mn + (fn + (bn + (rn + dn * 2 ^ 1) * 2 ^ 1) * 2 ^ 13) * 2 ^ 6) * 2 ^ 1)
          * 2 ^ 4) * 2 ^ 3) * 2 ^ 1 = spec_status_word t s i q m f b r d"
    by (simp add: spec_status_word_def n_defs)
  then show ?thesis using v9 shape by simp
qed


lemma set_status_reg_exec:
  "exec_opt (sh_il_set_status_reg (SH_U_REG w)) vm =
     Some (vm\<lparr>vm_global_bind := (vm_global_bind vm)
        (SH_SR_T \<mapsto> VBool (odd (w mod 2 ^ 32)),
         SH_SR_S \<mapsto> VBool (odd (w mod 2 ^ 32 div 2)),
         SH_SR_I \<mapsto> VBool (and 15 (w mod 2 ^ 32 div 16) \<noteq> 0),
         SH_SR_Q \<mapsto> VBool (odd (w mod 2 ^ 32 div 256)),
         SH_SR_M \<mapsto> VBool (odd (w mod 2 ^ 32 div 512)),
         SH_SR_F \<mapsto> VBool (odd (w mod 2 ^ 32 div 32768)),
         SH_SR_B \<mapsto> VBool (odd (w mod 2 ^ 32 div 268435456)),
         SH_SR_R \<mapsto> VBool (odd (w mod 2 ^ 32 div 536870912)),
         SH_SR_D \<mapsto> VBool (odd (w mod 2 ^ 32 div 1073741824)))\<rparr>)"
  by (simp add: sh_il_set_status_reg_def builder_defs header_defs eval_defs Let_def
      div_mult2_eq[symmetric] odd_iff_mod_2_eq_one)

text \<open>
  The round trip of every word: the defined single bits come back, the interrupt mask
  comes back as the one bit 4, set when the mask was not zero, and everything else is zero.
\<close>

lemma status_reg_roundtrip_general:
  "\<exists>vm'. exec_opt (sh_il_set_status_reg (SH_U_REG w)) vm = Some vm' \<and>
     eval_opt vm' sh_il_get_status_reg = Some (VBitv 32
       (spec_status_word (odd (w mod 2 ^ 32)) (odd (w mod 2 ^ 32 div 2))
          (and 15 (w mod 2 ^ 32 div 16) \<noteq> 0)
          (odd (w mod 2 ^ 32 div 256)) (odd (w mod 2 ^ 32 div 512)) (odd (w mod 2 ^ 32 div 32768))
          (odd (w mod 2 ^ 32 div 268435456)) (odd (w mod 2 ^ 32 div 536870912))
          (odd (w mod 2 ^ 32 div 1073741824))))"
proof -
  define vm' where "vm' = vm\<lparr>vm_global_bind := (vm_global_bind vm)
        (SH_SR_T \<mapsto> VBool (odd (w mod 2 ^ 32)),
         SH_SR_S \<mapsto> VBool (odd (w mod 2 ^ 32 div 2)),
         SH_SR_I \<mapsto> VBool (and 15 (w mod 2 ^ 32 div 16) \<noteq> 0),
         SH_SR_Q \<mapsto> VBool (odd (w mod 2 ^ 32 div 256)),
         SH_SR_M \<mapsto> VBool (odd (w mod 2 ^ 32 div 512)),
         SH_SR_F \<mapsto> VBool (odd (w mod 2 ^ 32 div 32768)),
         SH_SR_B \<mapsto> VBool (odd (w mod 2 ^ 32 div 268435456)),
         SH_SR_R \<mapsto> VBool (odd (w mod 2 ^ 32 div 536870912)),
         SH_SR_D \<mapsto> VBool (odd (w mod 2 ^ 32 div 1073741824)))\<rparr>"
  have run: "exec_opt (sh_il_set_status_reg (SH_U_REG w)) vm = Some vm'"
    unfolding vm'_def by (rule set_status_reg_exec)
  have t: "vm_global_bind vm' SH_SR_T = Some (VBool (odd (w mod 2 ^ 32)))"
    by (simp add: vm'_def flag_defs)
  have s: "vm_global_bind vm' SH_SR_S = Some (VBool (odd (w mod 2 ^ 32 div 2)))"
    by (simp add: vm'_def flag_defs)
  have i: "vm_global_bind vm' SH_SR_I = Some (VBool (and 15 (w mod 2 ^ 32 div 16) \<noteq> 0))"
    by (simp add: vm'_def flag_defs)
  have q: "vm_global_bind vm' SH_SR_Q = Some (VBool (odd (w mod 2 ^ 32 div 256)))"
    by (simp add: vm'_def flag_defs)
  have m: "vm_global_bind vm' SH_SR_M = Some (VBool (odd (w mod 2 ^ 32 div 512)))"
    by (simp add: vm'_def flag_defs)
  have f: "vm_global_bind vm' SH_SR_F = Some (VBool (odd (w mod 2 ^ 32 div 32768)))"
    by (simp add: vm'_def flag_defs)
  have b: "vm_global_bind vm' SH_SR_B = Some (VBool (odd (w mod 2 ^ 32 div 268435456)))"
    by (simp add: vm'_def flag_defs)
  have r: "vm_global_bind vm' SH_SR_R = Some (VBool (odd (w mod 2 ^ 32 div 536870912)))"
    by (simp add: vm'_def flag_defs)
  have d: "vm_global_bind vm' SH_SR_D = Some (VBool (odd (w mod 2 ^ 32 div 1073741824)))"
    by (simp add: vm'_def flag_defs)
  show ?thesis
    using run get_status_reg_eval[OF t s i q m f b r d] by blast
qed

text \<open>
  C1. Unpacking a status word into the flag variables and packing it again should give the
  word back on every defined position, the four bits 4 to 7 of the interrupt mask included.
  The code keeps one boolean for the whole interrupt mask: from the word \<open>0x20\<close> (only bit 5
  of the mask set) the round trip returns \<open>0x10\<close>, on every machine.
\<close>

theorem status_reg_roundtrip_loses_interrupt_mask:
  "\<exists>vm'. exec_opt (sh_il_set_status_reg (SH_U_REG 0x20)) vm = Some vm' \<and>
     eval_opt vm' sh_il_get_status_reg = Some (VBitv 32 0x10)"
  by (simp add: sh_il_set_status_reg_def sh_il_get_status_reg_def sh_il_get_status_reg_bit_def
      builder_defs header_defs flag_defs eval_defs Let_def)

section \<open>The carry of an addition\<close>

lemma msb32: "a < 2 ^ 32 \<Longrightarrow> bv_msb 32 a = (2 ^ 31 \<le> a)"
proof -
  assume a: "a < 2 ^ 32"
  have "a div 2 ^ 31 < 2" using a by (simp add: less_mult_imp_div_less)
  then have "a div 2 ^ 31 = 0 \<or> a div 2 ^ 31 = 1" by arith
  moreover have "(a div 2 ^ 31 = 0) = (a < 2 ^ 31)" by (simp add: div_eq_0_iff)
  ultimately show ?thesis
    by (auto simp: bv_msb_def)
qed

lemma add_carry_arith:
  assumes "a < 2 ^ 32" "b < 2 ^ 32"
  shows "(2 ^ 31 \<le> a \<and> 2 ^ 31 \<le> b \<or> \<not> 2 ^ 31 \<le> (a + b) mod 2 ^ 32 \<and> 2 ^ 31 \<le> b
          \<or> 2 ^ 31 \<le> a \<and> \<not> 2 ^ 31 \<le> (a + b) mod 2 ^ 32) = (2 ^ 32 - 1 < a + (b::nat))"
proof (cases "a + b < 2 ^ 32")
  case True
  then have "(a + b) mod 2 ^ 32 = a + b" by simp
  with True assms show ?thesis by auto
next
  case False
  then have "(a + b) mod 2 ^ 32 = a + b - 2 ^ 32"
    using assms by (simp add: mod_if)
  with False assms show ?thesis by auto
qed

text \<open>
  C2. For 32-bit operands \<open>x\<close> and \<open>y\<close> with values \<open>a\<close> and \<open>b\<close>, and a result operand holding
  their sum modulo \<open>2^32\<close>, the predicate built by \<open>sh_il_is_add_carry\<close> evaluates to true
  exactly when the exact sum \<open>a + b\<close> exceeds \<open>2^32 - 1\<close>.
\<close>

theorem sh_il_is_add_carry_correct:
  assumes "eval_pure vm x = Some (VBitv 32 a)" and "eval_pure vm y = Some (VBitv 32 b)"
    and "eval_pure vm res = Some (VBitv 32 ((a + b) mod 2 ^ 32))"
    and "a < 2 ^ 32" and "b < 2 ^ 32"
  shows "eval_opt vm (sh_il_is_add_carry (Some res) (Some x) (Some y))
         = Some (VBool (2 ^ 32 - 1 < a + b))"
proof -
  have r: "(a + b) mod 2 ^ 32 < (2::nat) ^ 32" by simp
  have m: "bv_msb 32 ((a + b) mod 2 ^ 32) = (2 ^ 31 \<le> (a + b) mod 2 ^ 32)"
    by (rule msb32[OF r])
  have e: "eval_opt vm (sh_il_is_add_carry (Some res) (Some x) (Some y))
      = Some (VBool (bv_msb 32 a \<and> bv_msb 32 b \<or> \<not> bv_msb 32 ((a + b) mod 2 ^ 32) \<and> bv_msb 32 b
           \<or> bv_msb 32 a \<and> \<not> bv_msb 32 ((a + b) mod 2 ^ 32)))"
    using assms(1-3)
    by (simp add: sh_il_is_add_carry_def builder_defs eval_defs Let_def)
  show ?thesis
    unfolding e m msb32[OF assms(4)] msb32[OF assms(5)]
    using add_carry_arith[OF assms(4,5)] by simp
qed

theorem sh_il_is_add_carry_correct_witness:
  "eval_pure vm_init (OpBitv 32 0xffffffff) = Some (VBitv 32 0xffffffff) \<and>
   eval_pure vm_init (OpBitv 32 1) = Some (VBitv 32 1) \<and>
   eval_pure vm_init (OpBitv 32 0) = Some (VBitv 32 ((0xffffffff + 1) mod 2 ^ 32)) \<and>
   (0xffffffff::nat) < 2 ^ 32 \<and> (1::nat) < 2 ^ 32 \<and>
   eval_opt vm_init (sh_il_is_add_carry (Some (OpBitv 32 0)) (Some (OpBitv 32 0xffffffff))
      (Some (OpBitv 32 1))) = Some (VBool True)"
proof -
  have h1: "eval_pure vm_init (OpBitv 32 0xffffffff) = Some (VBitv 32 0xffffffff)" by simp
  have h2: "eval_pure vm_init (OpBitv 32 1) = Some (VBitv 32 1)" by simp
  have h3: "eval_pure vm_init (OpBitv 32 0) = Some (VBitv 32 ((0xffffffff + 1) mod 2 ^ 32))" by simp
  have h4: "(0xffffffff::nat) < 2 ^ 32" by simp
  have h5: "(1::nat) < 2 ^ 32" by simp
  show ?thesis
    using sh_il_is_add_carry_correct[OF h1 h2 h3 h4 h5] h1 h2 h3 by simp
qed

section \<open>Writing to an operand\<close>

text \<open>
  C8. For every value, scaling and instruction address, the operand setter returns no
  effect (NULL) when the operand's addressing mode is an unsigned or a signed immediate:
  neither a store nor a register write is built.
\<close>

theorem sh_il_set_param_pc_immediate:
  "mode param = SH_IMM_U \<or> mode param = SH_IMM_S \<Longrightarrow>
     sh_il_set_param_pc param val scaling pc = None"
  by (auto simp: sh_il_set_param_pc_def Let_def)

theorem sh_il_set_param_pc_immediate_witness:
  "mode \<lparr>mode = SH_IMM_S, param0 = 5, param1 = 0\<rparr> = SH_IMM_S \<and>
   sh_il_set_param_pc \<lparr>mode = SH_IMM_S, param0 = 5, param1 = 0\<rparr> (SH_U_REG 7) SH_SCALING_L 0 = None"
  using sh_il_set_param_pc_immediate[of "\<lparr>mode = SH_IMM_S, param0 = 5, param1 = 0\<rparr>" "SH_U_REG 7" SH_SCALING_L 0]
  by simp

section \<open>Banked registers\<close>

lemma banked_cases: "reg < 8 \<Longrightarrow> reg \<in> {0, 1, 2, 3, 4, 5, 6, 7::nat}"
  by auto

lemma gpr_cases: "8 \<le> reg \<Longrightarrow> reg < 16 \<Longrightarrow> reg \<in> {8, 9, 10, 11, 12, 13, 14, 15::nat}"
  by auto

lemma banked_names:
  assumes "reg < 8"
  shows "sh_get_banked_reg reg 0 = Some (sh_registers ! reg) \<and>
         sh_get_banked_reg reg 1 = Some (sh_registers ! reg @ ''b'')"
  using banked_cases[OF assms]
  by (auto simp: sh_get_banked_reg_def sh_banked_reg_def sh_global_registers_def sh_registers_def
      header_defs)

lemma get_reg_banked_tree:
  assumes "reg < 8"
  shows "sh_il_get_reg reg = Some (OpIte (OpAnd (OpVar GLOBAL SH_SR_D) (OpVar GLOBAL SH_SR_R))
            (OpVar GLOBAL (sh_registers ! reg @ ''b'')) (OpVar GLOBAL (sh_registers ! reg)))"
  using assms banked_names[OF assms]
  by (simp add: sh_il_get_reg_def sh_valid_gpr_def sh_banked_reg_def header_defs builder_defs Let_def)

lemma set_reg_banked_tree:
  assumes "reg < 8"
  shows "sh_il_set_reg reg (Some v) = Some (OpBranch (OpAnd (OpVar GLOBAL SH_SR_D) (OpVar GLOBAL SH_SR_R))
            (OpSet GLOBAL (sh_registers ! reg @ ''b'') v) (OpSet GLOBAL (sh_registers ! reg) v))"
  using assms banked_names[OF assms]
  by (simp add: sh_il_set_reg_def sh_valid_gpr_def sh_banked_reg_def header_defs builder_defs Let_def)

lemma get_reg_plain_tree:
  assumes "8 \<le> reg" "reg < 16"
  shows "sh_il_get_reg reg = Some (OpVar GLOBAL (sh_registers ! reg))"
  using assms
  by (simp add: sh_il_get_reg_def sh_valid_gpr_def sh_banked_reg_def header_defs builder_defs)

lemma set_reg_plain_tree:
  assumes "8 \<le> reg" "reg < 16"
  shows "sh_il_set_reg reg (Some v) = Some (OpSet GLOBAL (sh_registers ! reg) v)"
  using assms
  by (simp add: sh_il_set_reg_def sh_valid_gpr_def sh_banked_reg_def header_defs builder_defs)

lemma reg_cases16:
  "reg < 16 \<Longrightarrow> reg \<in> {0, 1, 2, 3, 4, 5, 6, 7, 8, 9, 10, 11, 12, 13, 14, 15::nat}"
  using banked_cases[of reg] gpr_cases[of reg] by (cases "reg < 8") auto

lemma bank0_var_table: "reg < 16 \<Longrightarrow> sh_registers ! reg = spec_bank0_var reg"
  using reg_cases16[of reg] by (auto simp: sh_registers_def spec_bank0_var_def)

lemma bank1_var_table: "reg < 8 \<Longrightarrow> sh_registers ! reg @ ''b'' = spec_bank1_var reg"
  using banked_cases[of reg] by (auto simp: sh_registers_def spec_bank1_var_def)

lemma bank_vars_distinct:
  "i < 8 \<Longrightarrow> j < 16 \<Longrightarrow> spec_bank1_var i \<noteq> spec_bank0_var j"
  using banked_cases[of i] reg_cases16[of j]
  by (auto simp: spec_bank0_var_def spec_bank1_var_def)

lemma get_reg_banked:
  assumes "reg < 8"
  shows "sh_il_get_reg reg = Some (OpIte (OpAnd (OpVar GLOBAL SH_SR_D) (OpVar GLOBAL SH_SR_R))
            (OpVar GLOBAL (spec_bank1_var reg)) (OpVar GLOBAL (spec_bank0_var reg)))"
  using assms by (simp add: get_reg_banked_tree bank1_var_table[symmetric] bank0_var_table[symmetric])

lemma set_reg_banked:
  assumes "reg < 8"
  shows "sh_il_set_reg reg (Some v) = Some (OpBranch (OpAnd (OpVar GLOBAL SH_SR_D) (OpVar GLOBAL SH_SR_R))
            (OpSet GLOBAL (spec_bank1_var reg) v) (OpSet GLOBAL (spec_bank0_var reg) v))"
  using assms by (simp add: set_reg_banked_tree bank1_var_table[symmetric] bank0_var_table[symmetric])

lemma get_reg_plain:
  assumes "8 \<le> reg" "reg < 16"
  shows "sh_il_get_reg reg = Some (OpVar GLOBAL (spec_bank0_var reg))"
  using assms by (simp add: get_reg_plain_tree bank0_var_table)

lemma set_reg_plain:
  assumes "8 \<le> reg" "reg < 16"
  shows "sh_il_set_reg reg (Some v) = Some (OpSet GLOBAL (spec_bank0_var reg) v)"
  using assms by (simp add: set_reg_plain_tree bank0_var_table)

text \<open>
  Reading a general register yields the value of the variable the two flags select, and
  writing one binds that variable.
\<close>

lemma get_reg_eval:
  assumes "reg < 16" and "vm_global_bind vm SH_SR_D = Some (VBool md)"
    and "vm_global_bind vm SH_SR_R = Some (VBool rb)"
  shows "eval_opt vm (sh_il_get_reg reg) = vm_global_bind vm (spec_reg_var md rb reg)"
proof (cases "reg < 8")
  case True
  then show ?thesis using assms(2,3)
    by (auto simp: get_reg_banked spec_reg_var_def eval_defs)
next
  case False
  then show ?thesis using assms(1)
    by (simp add: get_reg_plain spec_reg_var_def eval_defs)
qed

lemma set_reg_exec:
  assumes "reg < 16" and "vm_global_bind vm SH_SR_D = Some (VBool md)"
    and "vm_global_bind vm SH_SR_R = Some (VBool rb)" and "eval_pure vm v = Some x"
  shows "exec_opt (sh_il_set_reg reg (Some v)) vm
       = Some (vm\<lparr>vm_global_bind := (vm_global_bind vm)(spec_reg_var md rb reg := Some x)\<rparr>)"
proof (cases "reg < 8")
  case True
  then show ?thesis using assms(2,3,4)
    by (auto simp: set_reg_banked spec_reg_var_def eval_defs)
next
  case False
  then show ?thesis using assms(1,4)
    by (simp add: set_reg_plain spec_reg_var_def eval_defs)
qed


text \<open>
  C9. For a general register below eight the read is a conditional, and the write a
  branch, on MD \<open>\<and>\<close> RB between the bank-1 variable \<open>r\<close>\<open>k\<close>\<open>b\<close> and the bank-0 variable \<open>r\<close>\<open>k\<close>,
  and the bank-1 variable is none of the sixteen bank-0 variables; for \<open>r8\<close> to \<open>r15\<close> the
  tree is a plain access to the register's one variable and mentions no bank bit. On
  every machine whose two flags are booleans, a read yields the value of the bank-1
  variable exactly when both flags are true and of the bank-0 variable otherwise, and a
  write binds that variable and changes no other.
\<close>

theorem sh_il_reg_bank_selection:
  assumes "reg < 16"
  shows
   "(reg < 8 \<longrightarrow>
       sh_il_get_reg reg =
         Some (OpIte (OpAnd (OpVar GLOBAL SH_SR_D) (OpVar GLOBAL SH_SR_R))
                 (OpVar GLOBAL (spec_bank1_var reg)) (OpVar GLOBAL (spec_bank0_var reg))) \<and>
       sh_il_set_reg reg (Some v) =
         Some (OpBranch (OpAnd (OpVar GLOBAL SH_SR_D) (OpVar GLOBAL SH_SR_R))
                 (OpSet GLOBAL (spec_bank1_var reg) v) (OpSet GLOBAL (spec_bank0_var reg) v)) \<and>
       (\<forall>k < 16. spec_bank1_var reg \<noteq> spec_bank0_var k))
    \<and> (8 \<le> reg \<longrightarrow>
       sh_il_get_reg reg = Some (OpVar GLOBAL (spec_bank0_var reg)) \<and>
       sh_il_set_reg reg (Some v) = Some (OpSet GLOBAL (spec_bank0_var reg) v))
    \<and> (\<forall>vm md rb.
         vm_global_bind vm SH_SR_D = Some (VBool md) \<and> vm_global_bind vm SH_SR_R = Some (VBool rb) \<longrightarrow>
         eval_opt vm (sh_il_get_reg reg) = vm_global_bind vm (spec_reg_var md rb reg) \<and>
         (\<forall>x. eval_pure vm v = Some x \<longrightarrow>
            exec_opt (sh_il_set_reg reg (Some v)) vm =
              Some (vm\<lparr>vm_global_bind := (vm_global_bind vm)(spec_reg_var md rb reg := Some x)\<rparr>)))"
proof (intro conjI impI allI)
  assume "reg < 8"
  then show "sh_il_get_reg reg =
         Some (OpIte (OpAnd (OpVar GLOBAL SH_SR_D) (OpVar GLOBAL SH_SR_R))
                 (OpVar GLOBAL (spec_bank1_var reg)) (OpVar GLOBAL (spec_bank0_var reg)))"
    by (rule get_reg_banked)
next
  assume "reg < 8"
  then show "sh_il_set_reg reg (Some v) =
         Some (OpBranch (OpAnd (OpVar GLOBAL SH_SR_D) (OpVar GLOBAL SH_SR_R))
                 (OpSet GLOBAL (spec_bank1_var reg) v) (OpSet GLOBAL (spec_bank0_var reg) v))"
    by (rule set_reg_banked)
next
  fix k :: nat
  assume "reg < 8" and "k < 16"
  then show "spec_bank1_var reg \<noteq> spec_bank0_var k" by (rule bank_vars_distinct)
next
  assume "8 \<le> reg"
  then show "sh_il_get_reg reg = Some (OpVar GLOBAL (spec_bank0_var reg))"
    using assms by (simp add: get_reg_plain)
next
  assume "8 \<le> reg"
  then show "sh_il_set_reg reg (Some v) = Some (OpSet GLOBAL (spec_bank0_var reg) v)"
    using assms by (simp add: set_reg_plain)
next
  fix vm :: RzILVM and md rb :: bool
  assume a: "vm_global_bind vm SH_SR_D = Some (VBool md) \<and> vm_global_bind vm SH_SR_R = Some (VBool rb)"
  then show "eval_opt vm (sh_il_get_reg reg) = vm_global_bind vm (spec_reg_var md rb reg)"
    using get_reg_eval[OF assms, of vm md rb] by simp
next
  fix vm :: RzILVM and md rb :: bool and x :: RzILVal
  assume a: "vm_global_bind vm SH_SR_D = Some (VBool md) \<and> vm_global_bind vm SH_SR_R = Some (VBool rb)"
    and e: "eval_pure vm v = Some x"
  show "exec_opt (sh_il_set_reg reg (Some v)) vm =
              Some (vm\<lparr>vm_global_bind := (vm_global_bind vm)(spec_reg_var md rb reg := Some x)\<rparr>)"
    using set_reg_exec[OF assms, of vm md rb v x] a e by simp
qed

theorem sh_il_reg_bank_selection_witness:
  "(3::nat) < 16 \<and> (3::nat) < 8 \<and> (10::nat) < 16 \<and> (8::nat) \<le> 10
   \<and> sh_il_get_reg 3 =
        Some (OpIte (OpAnd (OpVar GLOBAL ''sr_d'') (OpVar GLOBAL ''sr_r''))
                (OpVar GLOBAL ''r3b'') (OpVar GLOBAL ''r3''))
   \<and> sh_il_set_reg 3 (Some (OpBitv 32 7)) =
        Some (OpBranch (OpAnd (OpVar GLOBAL ''sr_d'') (OpVar GLOBAL ''sr_r''))
                (OpSet GLOBAL ''r3b'' (OpBitv 32 7)) (OpSet GLOBAL ''r3'' (OpBitv 32 7)))
   \<and> sh_il_get_reg 10 = Some (OpVar GLOBAL ''r10'')
   \<and> sh_il_set_reg 10 (Some (OpBitv 32 7)) = Some (OpSet GLOBAL ''r10'' (OpBitv 32 7))
   \<and> vm_global_bind vm_bank SH_SR_D = Some (VBool True) \<and> vm_global_bind vm_bank SH_SR_R = Some (VBool True)
   \<and> eval_opt vm_bank (sh_il_get_reg 3) = Some (VBitv 32 9)
   \<and> exec_opt (sh_il_set_reg 3 (Some (OpBitv 32 7))) vm_bank
       = Some (vm_bank\<lparr>vm_global_bind := (vm_global_bind vm_bank)(''r3b'' := Some (VBitv 32 7))\<rparr>)
   \<and> vm_global_bind vm_bank0 SH_SR_D = Some (VBool True) \<and> vm_global_bind vm_bank0 SH_SR_R = Some (VBool False)
   \<and> eval_opt vm_bank0 (sh_il_get_reg 3) = Some (VBitv 32 5)
   \<and> exec_opt (sh_il_set_reg 3 (Some (OpBitv 32 7))) vm_bank0
       = Some (vm_bank0\<lparr>vm_global_bind := (vm_global_bind vm_bank0)(''r3'' := Some (VBitv 32 7))\<rparr>)"
proof -
  have n3: "spec_bank0_var 3 = ''r3''" "spec_bank1_var 3 = ''r3b''" "spec_bank0_var 10 = ''r10''"
    by (simp_all add: spec_bank0_var_def spec_bank1_var_def)
  have v3: "spec_reg_var True True 3 = ''r3b''" "spec_reg_var True False 3 = ''r3''"
    by (simp_all add: spec_reg_var_def n3)
  have d1: "vm_global_bind vm_bank SH_SR_D = Some (VBool True)" by (simp add: vm_bank_def vm_init_def flag_defs)
  have r1: "vm_global_bind vm_bank SH_SR_R = Some (VBool True)" by (simp add: vm_bank_def vm_init_def flag_defs)
  have d0: "vm_global_bind vm_bank0 SH_SR_D = Some (VBool True)" by (simp add: vm_bank0_def vm_init_def flag_defs)
  have r0: "vm_global_bind vm_bank0 SH_SR_R = Some (VBool False)" by (simp add: vm_bank0_def vm_init_def flag_defs)
  have b1: "vm_global_bind vm_bank ''r3b'' = Some (VBitv 32 9)" by (simp add: vm_bank_def vm_init_def flag_defs)
  have b0: "vm_global_bind vm_bank0 ''r3'' = Some (VBitv 32 5)" by (simp add: vm_bank0_def vm_init_def flag_defs)
  have l3: "(3::nat) < 16" by simp
  have l10: "(10::nat) < 16" by simp
  note t3 = sh_il_reg_bank_selection[OF l3, of "OpBitv 32 7"]
  note t10 = sh_il_reg_bank_selection[OF l10, of "OpBitv 32 7"]
  have g3: "sh_il_get_reg 3 =
        Some (OpIte (OpAnd (OpVar GLOBAL ''sr_d'') (OpVar GLOBAL ''sr_r''))
                (OpVar GLOBAL ''r3b'') (OpVar GLOBAL ''r3''))"
    using t3 by (simp add: n3 flag_defs)
  have s3: "sh_il_set_reg 3 (Some (OpBitv 32 7)) =
        Some (OpBranch (OpAnd (OpVar GLOBAL ''sr_d'') (OpVar GLOBAL ''sr_r''))
                (OpSet GLOBAL ''r3b'' (OpBitv 32 7)) (OpSet GLOBAL ''r3'' (OpBitv 32 7)))"
    using t3 by (simp add: n3 flag_defs)
  have g10: "sh_il_get_reg 10 = Some (OpVar GLOBAL ''r10'')" using t10 by (simp add: n3)
  have s10: "sh_il_set_reg 10 (Some (OpBitv 32 7)) = Some (OpSet GLOBAL ''r10'' (OpBitv 32 7))"
    using t10 by (simp add: n3)
  have sem: "\<And>vm md rb. vm_global_bind vm SH_SR_D = Some (VBool md) \<Longrightarrow>
       vm_global_bind vm SH_SR_R = Some (VBool rb) \<Longrightarrow>
       eval_opt vm (sh_il_get_reg 3) = vm_global_bind vm (spec_reg_var md rb 3) \<and>
       exec_opt (sh_il_set_reg 3 (Some (OpBitv 32 7))) vm =
         Some (vm\<lparr>vm_global_bind := (vm_global_bind vm)(spec_reg_var md rb 3 := Some (VBitv 32 7))\<rparr>)"
    using t3[THEN conjunct2, THEN conjunct2, rule_format] by simp
  have e1: "eval_opt vm_bank (sh_il_get_reg 3) = Some (VBitv 32 9)"
    using sem[OF d1 r1] b1 by (simp add: v3)
  have x1: "exec_opt (sh_il_set_reg 3 (Some (OpBitv 32 7))) vm_bank
       = Some (vm_bank\<lparr>vm_global_bind := (vm_global_bind vm_bank)(''r3b'' := Some (VBitv 32 7))\<rparr>)"
    using sem[OF d1 r1] by (simp add: v3)
  have e0: "eval_opt vm_bank0 (sh_il_get_reg 3) = Some (VBitv 32 5)"
    using sem[OF d0 r0] b0 by (simp add: v3)
  have x0: "exec_opt (sh_il_set_reg 3 (Some (OpBitv 32 7))) vm_bank0
       = Some (vm_bank0\<lparr>vm_global_bind := (vm_global_bind vm_bank0)(''r3'' := Some (VBitv 32 7))\<rparr>)"
    using sem[OF d0 r0] by (simp add: v3)
  show ?thesis
    using g3 s3 g10 s10 d1 r1 e1 x1 d0 r0 e0 x0 by simp
qed

section \<open>The binding deriver\<close>

lemma bind_scan_subset: "set (bind_scan pc prev items) \<subseteq> set items"
  by (induction items arbitrary: prev) auto

lemma bind_scan_chain:
  assumes "sorted (map item_offset items)"
    and "\<And>p. prev = Some p \<Longrightarrow> \<forall>x\<in>set items. item_offset p \<le> item_offset x"
  shows "sorted_wrt (\<lambda>a b. item_offset a + item_size a \<le> item_offset b) (bind_scan pc prev items)
       \<and> (\<forall>p. prev = Some p \<longrightarrow>
            (\<forall>e\<in>set (bind_scan pc prev items). item_offset p + item_size p \<le> item_offset e))"
  using assms
proof (induction items arbitrary: prev)
  case Nil
  then show ?case by simp
next
  case (Cons item rest)
  have srt: "sorted (map item_offset rest)" using Cons.prems(1) by simp
  have le: "\<forall>x\<in>set rest. item_offset item \<le> item_offset x" using Cons.prems(1) by auto
  have prev_rest: "\<And>p. prev = Some p \<Longrightarrow> \<forall>x\<in>set rest. item_offset p \<le> item_offset x"
    using Cons.prems(2) by auto
  note ih_prev = Cons.IH[OF srt prev_rest]
  have ih_item: "sorted_wrt (\<lambda>a b. item_offset a + item_size a \<le> item_offset b) (bind_scan pc (Some item) rest)
       \<and> (\<forall>e\<in>set (bind_scan pc (Some item) rest). item_offset item + item_size item \<le> item_offset e)"
    using Cons.IH[of "Some item", OF srt] le by simp
  have sub: "set (bind_scan pc (Some item) rest) \<subseteq> set rest" by (rule bind_scan_subset)
  show ?case
  proof (cases "(case prev of None \<Rightarrow> False | Some p \<Rightarrow> item_offset p + item_size p > item_offset item)
                \<or> (case pc of None \<Rightarrow> False | Some n \<Rightarrow> item_name item = n)")
    case True
    then show ?thesis using ih_prev by auto
  next
    case False
    then have eq: "bind_scan pc prev (item # rest) = item # bind_scan pc (Some item) rest" by auto
    have "\<forall>p. prev = Some p \<longrightarrow> item_offset p + item_size p \<le> item_offset item"
      using False by (auto split: option.splits)
    then show ?thesis
      unfolding eq using ih_item sub le by fastforce
  qed
qed

lemma bind_scan_no_pc: "n \<notin> item_name ` set (bind_scan (Some n) prev items)"
  by (induction items arbitrary: prev) auto

lemma bind_regs_chain:
  "sorted_wrt (\<lambda>a b. item_offset a + item_size a \<le> item_offset b) (bind_regs pc regs)"
  using bind_scan_chain[of _ None]
  by (simp add: bind_regs_def rz_list_sort_offset_def Let_def)

lemma bind_flags_loop_size:
  "\<forall>f\<in>set flags. item_size f = 1 \<Longrightarrow> f \<in> set (bind_flags_loop flags regs) \<Longrightarrow> item_size f = 1"
proof (induction regs arbitrary: flags)
  case Nil
  then show ?case by simp
next
  case (Cons a regs)
  show ?case
  proof (cases "item_size a \<noteq> 1 \<or> list_ex (\<lambda>item2. item_offset item2 = item_offset a) flags")
    case True
    then have "bind_flags_loop flags (a # regs) = bind_flags_loop flags regs" by auto
    then show ?thesis using Cons by simp
  next
    case False
    then have e: "bind_flags_loop flags (a # regs) = bind_flags_loop (flags @ [a]) regs" by auto
    have "\<forall>f\<in>set (flags @ [a]). item_size f = 1" using Cons.prems(1) False by auto
    then show ?thesis using Cons.IH[of "flags @ [a]"] Cons.prems(2) e by simp
  qed
qed

lemma bind_flags_size: "f \<in> set (bind_flags regs) \<Longrightarrow> item_size f = 1"
  using bind_flags_loop_size[of "[]" f regs] by (simp add: bind_flags_def)

text \<open>
  C5 (amended). The binding of a profile is, class by class, the flags followed by the
  registers bound by the last loop. Within a class no two registers bound by the last loop
  have overlapping bit ranges, and the name of the program counter is never among them;
  an entry of the binding that carries the name of the program counter is a 1-bit flag.
\<close>

theorem binding_derive_non_overlap:
  "rz_il_reg_binding_derive reg =
      concat (map (\<lambda>regs. map binding_item (bind_flags regs)
                          @ map binding_item (bind_regs (rz_reg_get_name_pc reg) regs)) (regset reg))
   \<and> (i < j \<and> j < length (bind_regs pc regs) \<longrightarrow>
        {item_offset (bind_regs pc regs ! i) ..< item_offset (bind_regs pc regs ! i) + item_size (bind_regs pc regs ! i)}
        \<inter> {item_offset (bind_regs pc regs ! j) ..< item_offset (bind_regs pc regs ! j) + item_size (bind_regs pc regs ! j)} = {})
   \<and> n \<notin> item_name ` set (bind_regs (Some n) regs)
   \<and> (rz_reg_get_name_pc reg = Some n \<and> (n, sz) \<in> set (rz_il_reg_binding_derive reg) \<longrightarrow> sz = 1)"
proof (intro conjI impI)
  show "rz_il_reg_binding_derive reg =
      concat (map (\<lambda>regs. map binding_item (bind_flags regs)
                          @ map binding_item (bind_regs (rz_reg_get_name_pc reg) regs)) (regset reg))"
    by (simp add: rz_il_reg_binding_derive_def)
next
  assume a: "i < j \<and> j < length (bind_regs pc regs)"
  then have "item_offset (bind_regs pc regs ! i) + item_size (bind_regs pc regs ! i)
              \<le> item_offset (bind_regs pc regs ! j)"
    using bind_regs_chain[of pc regs] by (simp add: sorted_wrt_iff_nth_less)
  then show "{item_offset (bind_regs pc regs ! i) ..< item_offset (bind_regs pc regs ! i) + item_size (bind_regs pc regs ! i)}
        \<inter> {item_offset (bind_regs pc regs ! j) ..< item_offset (bind_regs pc regs ! j) + item_size (bind_regs pc regs ! j)} = {}"
    by auto
next
  show "n \<notin> item_name ` set (bind_regs (Some n) regs)"
    by (simp add: bind_regs_def Let_def bind_scan_no_pc)
next
  assume a: "rz_reg_get_name_pc reg = Some n \<and> (n, sz) \<in> set (rz_il_reg_binding_derive reg)"
  then obtain regs where r: "regs \<in> set (regset reg)"
     and m: "(n, sz) \<in> binding_item ` set (bind_flags regs) \<or> (n, sz) \<in> binding_item ` set (bind_regs (Some n) regs)"
    by (auto simp: rz_il_reg_binding_derive_def)
  have "(n, sz) \<notin> binding_item ` set (bind_regs (Some n) regs)"
    using bind_scan_no_pc[of n None] by (auto simp: binding_item_def bind_regs_def Let_def)
  with m have "(n, sz) \<in> binding_item ` set (bind_flags regs)" by simp
  then show "sz = 1" by (auto simp: binding_item_def bind_flags_size)
qed

text \<open>
  C5 as stated fails: the first loop binds every 1-bit register whatever its name, so a
  profile whose program counter is one bit wide has it in the binding.
\<close>

theorem binding_derive_pc_counterexample:
  "rz_reg_get_name_pc reg_pc_flag = Some ''pc'' \<and> (''pc'', 1) \<in> set (rz_il_reg_binding_derive reg_pc_flag)"
  by (simp add: rz_il_reg_binding_derive_def reg_pc_flag_def bind_flags_def bind_regs_def bind_nonflags_def
     rz_reg_filter_items_covered_def rz_list_sort_offset_def item_covered_by_def binding_item_def
     rz_reg_get_name_pc_def Let_def)


theorem binding_derive_non_overlap_witness:
  "rz_il_reg_binding_derive reg_x86 = [(''zf'', 1), (''eax'', 32), (''ebx'', 32)]
   \<and> bind_regs (Some ''eip'') (hd (regset reg_x86)) =
        [\<lparr>item_name = ''eax'', item_type = 0, item_size = 32, item_offset = 0\<rparr>,
         \<lparr>item_name = ''ebx'', item_type = 0, item_size = 32, item_offset = 32\<rparr>]
   \<and> (0::nat) < 1 \<and> 1 < length (bind_regs (Some ''eip'') (hd (regset reg_x86)))
   \<and> {0 ..< 32} \<inter> {32 ..< 64 :: nat} = {}
   \<and> ''eip'' \<notin> item_name ` set (bind_regs (Some ''eip'') (hd (regset reg_x86)))
   \<and> rz_reg_get_name_pc reg_pc_flag = Some ''pc''
   \<and> (''pc'', 1) \<in> set (rz_il_reg_binding_derive reg_pc_flag)
   \<and> (1::nat) = 1"
proof -
  have b: "bind_regs (Some ''eip'') (hd (regset reg_x86)) =
        [\<lparr>item_name = ''eax'', item_type = 0, item_size = 32, item_offset = 0\<rparr>,
         \<lparr>item_name = ''ebx'', item_type = 0, item_size = 32, item_offset = 32\<rparr>]"
    by (simp add: reg_x86_def bind_flags_def bind_regs_def bind_nonflags_def
     rz_reg_filter_items_covered_def rz_list_sort_offset_def item_covered_by_def Let_def)
  have d: "rz_il_reg_binding_derive reg_x86 = [(''zf'', 1), (''eax'', 32), (''ebx'', 32)]"
    by (simp add: rz_il_reg_binding_derive_def reg_x86_def bind_flags_def bind_regs_def bind_nonflags_def
     rz_reg_filter_items_covered_def rz_list_sort_offset_def item_covered_by_def binding_item_def
     rz_reg_get_name_pc_def Let_def)
  have c: "rz_reg_get_name_pc reg_pc_flag = Some ''pc'' \<and> (''pc'', 1) \<in> set (rz_il_reg_binding_derive reg_pc_flag)"
    by (simp add: rz_il_reg_binding_derive_def reg_pc_flag_def bind_flags_def bind_regs_def bind_nonflags_def
     rz_reg_filter_items_covered_def rz_list_sort_offset_def item_covered_by_def binding_item_def
     rz_reg_get_name_pc_def Let_def)
  show ?thesis
    using binding_derive_non_overlap[of reg_x86 0 1 "Some ''eip''" "hd (regset reg_x86)" "''eip''" 1]
          binding_derive_non_overlap[of reg_pc_flag 0 1 "Some ''pc''" "hd (regset reg_pc_flag)" "''pc''" 1]
          b c d
    by simp
qed

section \<open>The register sync engine: push and pull\<close>

lemma set_bv_regset [simp]: "regset (snd (rz_reg_set_bv reg ri bv)) = regset reg"
  by (simp add: rz_reg_set_bv_def)

lemma set_bv_name_pc [simp]: "reg_name_pc (snd (rz_reg_set_bv reg ri bv)) = reg_name_pc reg"
  by (simp add: rz_reg_set_bv_def)

lemma rz_reg_get_cong: "regset reg' = regset reg \<Longrightarrow> rz_reg_get reg' n = rz_reg_get reg n"
  by (simp add: rz_reg_get_def)

lemma spec_entry_clean_cong:
  "regset reg' = regset reg \<Longrightarrow> spec_entry_clean vm reg' item = spec_entry_clean vm reg item"
  by (simp add: spec_entry_clean_def rz_reg_get_def)

lemma horner_odd_div:
  "horner_sum of_bool (2::nat) (map (\<lambda>k. odd (v div 2 ^ k)) [0..<n]) = v mod 2 ^ n"
proof -
  have m: "(\<lambda>k. odd (v div 2 ^ k)) = bit v"
    by (rule ext) (simp add: bit_iff_odd)
  have "horner_sum of_bool (2::nat) (map (bit v) [0..<n]) = take_bit n v"
    by (rule horner_sum_bit_eq_take_bit)
  then show ?thesis
    by (simp only: m take_bit_eq_mod)
qed

lemma arena_after_set:
  "k < item_size ri \<Longrightarrow>
   reg_arena (snd (rz_reg_set_bv reg ri (item_size ri, v))) (item_type ri) (item_offset ri + k)
     = odd (v div 2 ^ k)"
  by (simp add: rz_reg_set_bv_def rz_bv_len_def)

lemma get_after_set:
  "rz_reg_get_bv (snd (rz_reg_set_bv reg ri (item_size ri, v))) ri = (item_size ri, v mod 2 ^ item_size ri)"
proof -
  have "map (\<lambda>k. reg_arena (snd (rz_reg_set_bv reg ri (item_size ri, v))) (item_type ri) (item_offset ri + k))
           [0..<item_size ri]
      = map (\<lambda>k. odd (v div 2 ^ k)) [0..<item_size ri]"
    by (rule map_cong) (simp_all add: arena_after_set)
  then show ?thesis
    unfolding rz_reg_get_bv_def by (simp only: horner_odd_div)
qed

lemma sync_to_reg_item_noreg:
  "rz_reg_get reg (fst item) = None \<Longrightarrow> sync_to_reg_item vm (p, reg) item = (False, reg)"
  by (simp add: sync_to_reg_item_def)

lemma sync_to_reg_item_novar:
  "rz_reg_get reg (fst item) = Some ri \<Longrightarrow>
   vm_global_bind vm (fst item) = None \<or> (\<exists>x. vm_global_bind vm (fst item) = Some (VBool x)) \<Longrightarrow>
   sync_to_reg_item vm (p, reg) item = (False, snd (rz_reg_set_bv reg ri (item_size ri, 0)))"
  by (auto simp add: sync_to_reg_item_def rz_il_hash_find_val_by_name_def rz_bv_new_zero_def)

lemma sync_to_reg_item_same:
  "rz_reg_get reg (fst item) = Some ri \<Longrightarrow> vm_global_bind vm (fst item) = Some (VBitv (item_size ri) b) \<Longrightarrow>
   sync_to_reg_item vm (p, reg) item = (p, snd (rz_reg_set_bv reg ri (item_size ri, b)))"
  by (simp add: sync_to_reg_item_def rz_il_hash_find_val_by_name_def rz_bv_len_def rz_reg_set_bv_def)

lemma sync_to_reg_item_coerce:
  "rz_reg_get reg (fst item) = Some ri \<Longrightarrow> vm_global_bind vm (fst item) = Some (VBitv l b) \<Longrightarrow>
   l \<noteq> item_size ri \<Longrightarrow>
   sync_to_reg_item vm (p, reg) item =
     (False, snd (rz_reg_set_bv reg ri (item_size ri, b mod 2 ^ min l (item_size ri))))"
  by (simp add: sync_to_reg_item_def rz_il_hash_find_val_by_name_def rz_bv_len_def
      rz_bv_copy_nbits_def rz_bv_new_zero_def)

lemma sync_to_reg_item_regset:
  "regset (snd (sync_to_reg_item vm (p, reg) item)) = regset reg"
proof (cases "rz_reg_get reg (fst item)")
  case None
  then show ?thesis by (simp add: sync_to_reg_item_noreg)
next
  case (Some ri)
  show ?thesis
  proof (cases "vm_global_bind vm (fst item)")
    case None
    then show ?thesis using Some by (simp add: sync_to_reg_item_novar)
  next
    case (Some v)
    note v = this
    show ?thesis
    proof (cases v)
      case (VBool x)
      then show ?thesis using \<open>rz_reg_get reg (fst item) = Some ri\<close> v
        by (simp add: sync_to_reg_item_novar)
    next
      case (VBitv l b)
      then show ?thesis using \<open>rz_reg_get reg (fst item) = Some ri\<close> v
        by (cases "l = item_size ri") (simp_all add: sync_to_reg_item_same sync_to_reg_item_coerce)
    qed
  qed
qed

lemma sync_to_reg_item_flag:
  "fst (sync_to_reg_item vm (p, reg) item) = (p \<and> spec_entry_clean vm reg item)"
proof (cases "rz_reg_get reg (fst item)")
  case None
  then show ?thesis by (simp add: sync_to_reg_item_noreg spec_entry_clean_def)
next
  case (Some ri)
  show ?thesis
  proof (cases "vm_global_bind vm (fst item)")
    case None
    then show ?thesis using Some by (simp add: sync_to_reg_item_novar spec_entry_clean_def)
  next
    case (Some v)
    note v = this
    show ?thesis
    proof (cases v)
      case (VBool x)
      then show ?thesis using \<open>rz_reg_get reg (fst item) = Some ri\<close> v
        by (simp add: sync_to_reg_item_novar spec_entry_clean_def)
    next
      case (VBitv l b)
      then show ?thesis using \<open>rz_reg_get reg (fst item) = Some ri\<close> v
        by (cases "l = item_size ri")
           (simp_all add: sync_to_reg_item_same sync_to_reg_item_coerce spec_entry_clean_def)
    qed
  qed
qed

lemma sync_to_reg_fold_flag:
  "fst (fold (\<lambda>item st. sync_to_reg_item vm st item) rb (p, reg))
     = (p \<and> (\<forall>item\<in>set rb. spec_entry_clean vm reg item))"
proof (induction rb arbitrary: p reg)
  case Nil
  then show ?case by simp
next
  case (Cons item rb)
  obtain p' reg' where s: "sync_to_reg_item vm (p, reg) item = (p', reg')"
    by (cases "sync_to_reg_item vm (p, reg) item")
  have p': "p' = (p \<and> spec_entry_clean vm reg item)"
    using sync_to_reg_item_flag[of vm p reg item] s by simp
  have r': "regset reg' = regset reg"
    using sync_to_reg_item_regset[of vm p reg item] s by simp
  show ?case
    using Cons.IH[of p' reg'] s p' spec_entry_clean_cong[OF r'] by auto
qed

lemma sync_to_reg_pc_flag: "fst (sync_to_reg_pc vm reg) = spec_pc_clean vm reg"
  by (simp add: sync_to_reg_pc_def spec_pc_clean_def rz_reg_get_name_pc_def Let_def
      rz_bv_new_zero_def rz_bv_len_def split: option.splits)

lemma sync_to_reg_pc_regset [simp]: "regset (snd (sync_to_reg_pc vm reg)) = regset reg"
  by (simp add: sync_to_reg_pc_def Let_def split: option.splits)



lemma sync_to_reg_fold_regset:
  "regset (snd (fold (\<lambda>item st. sync_to_reg_item vm st item) rb st)) = regset (snd st)"
proof (induction rb arbitrary: st)
  case Nil
  then show ?case by simp
next
  case (Cons item rb)
  have "regset (snd (sync_to_reg_item vm st item)) = regset (snd st)"
    using sync_to_reg_item_regset[of vm "fst st" "snd st" item] by simp
  then show ?case using Cons.IH[of "sync_to_reg_item vm st item"] by simp
qed

lemma sync_to_reg_item_written:
  assumes "rz_reg_get reg (fst item) = Some ri" and "vm_global_bind vm (fst item) = Some (VBitv l b)"
    and "b < 2 ^ l"
  shows "rz_reg_get_bv (snd (sync_to_reg_item vm (p, reg) item)) ri =
        (item_size ri, if l \<le> item_size ri then b else b mod 2 ^ item_size ri)"
proof -
  have small: "b mod 2 ^ item_size ri = b" if "l \<le> item_size ri"
  proof -
    have "(2::nat) ^ l \<le> 2 ^ item_size ri" using that by simp
    with assms(3) have "b < 2 ^ item_size ri" by linarith
    then show ?thesis by simp
  qed
  show ?thesis
  proof (cases "l = item_size ri")
    case True
    then show ?thesis using assms small
      by (simp add: sync_to_reg_item_same get_after_set)
  next
    case False
    have e: "sync_to_reg_item vm (p, reg) item =
       (False, snd (rz_reg_set_bv reg ri (item_size ri, b mod 2 ^ min l (item_size ri))))"
      using assms False by (simp add: sync_to_reg_item_coerce)
    show ?thesis
    proof (cases "l \<le> item_size ri")
      case True
      then have "b mod 2 ^ min l (item_size ri) = b" using assms(3) by (simp add: min_def)
      then show ?thesis using True small by (simp add: e get_after_set)
    next
      case False
      then have "min l (item_size ri) = item_size ri" by simp
      then show ?thesis using False by (simp add: e get_after_set)
    qed
  qed
qed

lemma reg_sh_get_r0:
  "rz_reg_get reg_sh ''r0'' = Some \<lparr>item_name = ''r0'', item_type = 0, item_size = 32, item_offset = 0\<rparr>"
  by (simp add: rz_reg_get_def reg_sh_def)

lemma reg_sh_get_r1:
  "rz_reg_get reg_sh ''r1'' = Some \<lparr>item_name = ''r1'', item_type = 0, item_size = 32, item_offset = 32\<rparr>"
  by (simp add: rz_reg_get_def reg_sh_def)

lemma reg_sh_get_ghost: "rz_reg_get reg_sh ''ghost'' = None"
  by (simp add: rz_reg_get_def reg_sh_def)

text \<open>
  A write to a register leaves the content of every register that does not overlap it.
\<close>

lemma get_bv_set_other:
  assumes "\<not> regs_overlap ri rj"
  shows "rz_reg_get_bv (snd (rz_reg_set_bv reg rj bv)) ri = rz_reg_get_bv reg ri"
proof -
  have h: "map (\<lambda>k. reg_arena (snd (rz_reg_set_bv reg rj bv)) (item_type ri) (item_offset ri + k))
           [0..<item_size ri]
      = map (\<lambda>k. reg_arena reg (item_type ri) (item_offset ri + k)) [0..<item_size ri]"
  proof (rule map_cong)
    fix k assume "k \<in> set [0..<item_size ri]"
    then have k: "k < item_size ri" by simp
    show "reg_arena (snd (rz_reg_set_bv reg rj bv)) (item_type ri) (item_offset ri + k)
        = reg_arena reg (item_type ri) (item_offset ri + k)"
      using assms k by (auto simp: rz_reg_set_bv_def regs_overlap_def)
  qed simp
  show ?thesis unfolding rz_reg_get_bv_def by (simp only: h)
qed

lemma sync_to_reg_item_other:
  assumes "\<And>rj. rz_reg_get reg (fst item) = Some rj \<Longrightarrow> \<not> regs_overlap ri rj"
  shows "rz_reg_get_bv (snd (sync_to_reg_item vm (p, reg) item)) ri = rz_reg_get_bv reg ri"
proof (cases "rz_reg_get reg (fst item)")
  case None
  then show ?thesis by (simp add: sync_to_reg_item_noreg)
next
  case (Some rj)
  note rj = this
  have no: "\<not> regs_overlap ri rj" using assms[OF rj] .
  show ?thesis
  proof (cases "vm_global_bind vm (fst item)")
    case None
    then show ?thesis using rj no by (simp add: sync_to_reg_item_novar get_bv_set_other)
  next
    case (Some v)
    note v = this
    show ?thesis
    proof (cases v)
      case (VBool x)
      then show ?thesis using rj v no by (simp add: sync_to_reg_item_novar get_bv_set_other)
    next
      case (VBitv l b)
      then show ?thesis using rj v no
        by (cases "l = item_size rj")
           (simp_all add: sync_to_reg_item_same sync_to_reg_item_coerce get_bv_set_other)
    qed
  qed
qed

lemma sync_to_reg_fold_other:
  assumes "regset (snd st) = regset reg"
    and "\<forall>item\<in>set rest. \<forall>rj. rz_reg_get reg (fst item) = Some rj \<longrightarrow> \<not> regs_overlap ri rj"
  shows "rz_reg_get_bv (snd (fold (\<lambda>item st. sync_to_reg_item vm st item) rest st)) ri
       = rz_reg_get_bv (snd st) ri"
  using assms
proof (induction rest arbitrary: st)
  case Nil
  then show ?case by simp
next
  case (Cons item rest)
  have g: "rz_reg_get (snd st) (fst item) = rz_reg_get reg (fst item)"
    using Cons.prems(1) by (simp add: rz_reg_get_def)
  have here: "\<And>rj. rz_reg_get (snd st) (fst item) = Some rj \<Longrightarrow> \<not> regs_overlap ri rj"
    using Cons.prems(2) g by simp
  have one: "rz_reg_get_bv (snd (sync_to_reg_item vm st item)) ri = rz_reg_get_bv (snd st) ri"
    using sync_to_reg_item_other[of "snd st" item ri vm "fst st", OF here] by simp
  have rs: "regset (snd (sync_to_reg_item vm st item)) = regset reg"
    using sync_to_reg_item_regset[of vm "fst st" "snd st" item] Cons.prems(1) by simp
  have rest: "\<forall>item\<in>set rest. \<forall>rj. rz_reg_get reg (fst item) = Some rj \<longrightarrow> \<not> regs_overlap ri rj"
    using Cons.prems(2) by simp
  have "rz_reg_get_bv (snd (fold (\<lambda>item st. sync_to_reg_item vm st item) rest (sync_to_reg_item vm st item))) ri
       = rz_reg_get_bv (snd (sync_to_reg_item vm st item)) ri"
    by (rule Cons.IH[OF rs rest])
  then show ?case using one by simp
qed

lemma sync_to_reg_loop_regset: "regset (snd (sync_to_reg_loop vm reg rb k)) = regset reg"
  by (simp add: sync_to_reg_loop_def sync_to_reg_fold_regset)

lemma sync_to_reg_loop_Suc:
  "i < length rb \<Longrightarrow>
   sync_to_reg_loop vm reg rb (Suc i) = sync_to_reg_item vm (sync_to_reg_loop vm reg rb i) (rb ! i)"
  by (simp add: sync_to_reg_loop_def take_Suc_conv_app_nth)

lemma sync_to_reg_loop_all:
  "vm_reg_binding vm = Some rb \<Longrightarrow> rz_il_vm_sync_to_reg vm reg = sync_to_reg_loop vm reg rb (length rb)"
  by (simp add: rz_il_vm_sync_to_reg_def sync_to_reg_loop_def Let_def)

lemma sync_to_reg_loop_rest:
  "sync_to_reg_loop vm reg rb (length rb)
     = fold (\<lambda>item st. sync_to_reg_item vm st item) (drop k rb) (sync_to_reg_loop vm reg rb k)"
proof -
  have "fold (\<lambda>item st. sync_to_reg_item vm st item) (take k rb @ drop k rb) (sync_to_reg_pc vm reg)
      = fold (\<lambda>item st. sync_to_reg_item vm st item) (drop k rb) (sync_to_reg_loop vm reg rb k)"
    unfolding sync_to_reg_loop_def by (simp only: fold_append comp_apply)
  then show ?thesis by (simp add: sync_to_reg_loop_def)
qed

lemma sync_to_reg_loop_written:
  assumes i: "i < length rb" and ri: "rz_reg_get reg (fst (rb ! i)) = Some ri"
    and v: "vm_global_bind vm (fst (rb ! i)) = Some (VBitv l b)" and b: "b < 2 ^ l"
  shows "rz_reg_get_bv (snd (sync_to_reg_loop vm reg rb (Suc i))) ri
       = (item_size ri, spec_coerce l b (item_size ri))"
proof -
  obtain p reg' where s: "sync_to_reg_loop vm reg rb i = (p, reg')"
    by (cases "sync_to_reg_loop vm reg rb i")
  have rs: "regset reg' = regset reg"
    using sync_to_reg_loop_regset[of vm reg rb i] s by simp
  have g: "rz_reg_get reg' (fst (rb ! i)) = Some ri"
    using ri rs by (simp add: rz_reg_get_def)
  show ?thesis
    using sync_to_reg_item_written[OF g v b, of p] s
    by (simp add: sync_to_reg_loop_Suc[OF i] spec_coerce_def)
qed

lemma sync_to_reg_final_written:
  assumes rb: "vm_reg_binding vm = Some rb"
    and i: "i < length rb" and ri: "rz_reg_get reg (fst (rb ! i)) = Some ri"
    and v: "vm_global_bind vm (fst (rb ! i)) = Some (VBitv l b)" and b: "b < 2 ^ l"
    and later: "\<forall>j rj. i < j \<and> j < length rb \<and> rz_reg_get reg (fst (rb ! j)) = Some rj
                  \<longrightarrow> \<not> regs_overlap ri rj"
  shows "rz_reg_get_bv (snd (rz_il_vm_sync_to_reg vm reg)) ri
       = (item_size ri, spec_coerce l b (item_size ri))"
proof -
  have run: "rz_il_vm_sync_to_reg vm reg
      = fold (\<lambda>item st. sync_to_reg_item vm st item) (drop (Suc i) rb)
          (sync_to_reg_loop vm reg rb (Suc i))"
    using sync_to_reg_loop_all[OF rb, of reg] sync_to_reg_loop_rest[of vm reg rb "Suc i"] by simp
  have other: "\<not> regs_overlap ri rj"
    if m: "item \<in> set (drop (Suc i) rb)" and g: "rz_reg_get reg (fst item) = Some rj" for item rj
  proof -
    from m obtain k where k: "k < length (drop (Suc i) rb)" "drop (Suc i) rb ! k = item"
      by (auto simp: in_set_conv_nth)
    then have "Suc i + k < length rb" "rb ! (Suc i + k) = item" by simp_all
    then show ?thesis using later g by (metis less_add_Suc1 add_Suc)
  qed
  have "rz_reg_get_bv (snd (rz_il_vm_sync_to_reg vm reg)) ri
      = rz_reg_get_bv (snd (sync_to_reg_loop vm reg rb (Suc i))) ri"
    unfolding run
    by (rule sync_to_reg_fold_other[OF sync_to_reg_loop_regset]) (use other in blast)
  then show ?thesis
    using sync_to_reg_loop_written[OF i ri v b] by simp
qed


text \<open>
  C6 (amended). With a binding \<open>rb\<close>, the push is the loop over all of \<open>rb\<close>. For every entry
  of \<open>rb\<close> that has a register and a bitvector variable, the iteration of that entry leaves
  in the register the variable's value, zero-extended to the register's width when it is
  narrower (or as wide) and cut to its low-order bits when it is wider; when no later
  entry is pushed to a register overlapping it, the register holds that value when the
  push returns. The returned flag is true exactly when the program counter is clean, the
  machine has a binding, and every entry of the binding is clean.
\<close>

theorem sync_to_reg_coercion_and_fidelity:
  "(\<forall>rb. vm_reg_binding vm = Some rb \<longrightarrow>
       rz_il_vm_sync_to_reg vm reg = sync_to_reg_loop vm reg rb (length rb) \<and>
       (\<forall>i ri l b. i < length rb \<and> rz_reg_get reg (fst (rb ! i)) = Some ri
            \<and> vm_global_bind vm (fst (rb ! i)) = Some (VBitv l b) \<and> b < 2 ^ l \<longrightarrow>
          rz_reg_get_bv (snd (sync_to_reg_loop vm reg rb (Suc i))) ri
            = (item_size ri, spec_coerce l b (item_size ri)) \<and>
          ((\<forall>j rj. i < j \<and> j < length rb \<and> rz_reg_get reg (fst (rb ! j)) = Some rj
                  \<longrightarrow> \<not> regs_overlap ri rj) \<longrightarrow>
           rz_reg_get_bv (snd (rz_il_vm_sync_to_reg vm reg)) ri
            = (item_size ri, spec_coerce l b (item_size ri)))))
   \<and> fst (rz_il_vm_sync_to_reg vm reg) =
       (spec_pc_clean vm reg \<and>
        (case vm_reg_binding vm of None \<Rightarrow> False
         | Some rb \<Rightarrow> \<forall>item\<in>set rb. spec_entry_clean vm reg item))"
proof (intro conjI allI impI)
  fix rb assume "vm_reg_binding vm = Some rb"
  then show "rz_il_vm_sync_to_reg vm reg = sync_to_reg_loop vm reg rb (length rb)"
    by (rule sync_to_reg_loop_all)
next
  fix rb i ri l b
  assume "vm_reg_binding vm = Some rb"
    and a: "i < length rb \<and> rz_reg_get reg (fst (rb ! i)) = Some ri
            \<and> vm_global_bind vm (fst (rb ! i)) = Some (VBitv l b) \<and> b < 2 ^ l"
  show "rz_reg_get_bv (snd (sync_to_reg_loop vm reg rb (Suc i))) ri
            = (item_size ri, spec_coerce l b (item_size ri))"
    using a sync_to_reg_loop_written[of i rb reg ri vm l b] by simp
next
  fix rb i ri l b
  assume rb: "vm_reg_binding vm = Some rb"
    and a: "i < length rb \<and> rz_reg_get reg (fst (rb ! i)) = Some ri
            \<and> vm_global_bind vm (fst (rb ! i)) = Some (VBitv l b) \<and> b < 2 ^ l"
    and later: "\<forall>j rj. i < j \<and> j < length rb \<and> rz_reg_get reg (fst (rb ! j)) = Some rj
                  \<longrightarrow> \<not> regs_overlap ri rj"
  show "rz_reg_get_bv (snd (rz_il_vm_sync_to_reg vm reg)) ri
            = (item_size ri, spec_coerce l b (item_size ri))"
    using a sync_to_reg_final_written[OF rb _ _ _ _ later, of l b] by simp
next
  show "fst (rz_il_vm_sync_to_reg vm reg) =
       (spec_pc_clean vm reg \<and>
        (case vm_reg_binding vm of None \<Rightarrow> False
         | Some rb \<Rightarrow> \<forall>item\<in>set rb. spec_entry_clean vm reg item))"
  proof (cases "vm_reg_binding vm")
    case None
    then show ?thesis by (simp add: rz_il_vm_sync_to_reg_def Let_def)
  next
    case (Some rb)
    obtain p reg' where s: "sync_to_reg_pc vm reg = (p, reg')" by (cases "sync_to_reg_pc vm reg")
    have p: "p = spec_pc_clean vm reg" using sync_to_reg_pc_flag[of vm reg] s by simp
    have r: "regset reg' = regset reg" using sync_to_reg_pc_regset[of vm reg] s by simp
    show ?thesis
      using Some s p sync_to_reg_fold_flag[of vm rb p reg'] spec_entry_clean_cong[OF r]
      by (simp add: rz_il_vm_sync_to_reg_def Let_def)
  qed
qed

theorem sync_to_reg_coercion_and_fidelity_witness:
  "vm_reg_binding vm_push = Some [(''r0'', 32), (''ghost'', 8), (''r1'', 32)]
   \<and> vm_global_bind vm_push ''r0'' = Some (VBitv 8 0xab)
   \<and> vm_global_bind vm_push ''r1'' = Some (VBitv 40 0x123456789a)
   \<and> rz_reg_get reg_sh ''r0'' =
        Some \<lparr>item_name = ''r0'', item_type = 0, item_size = 32, item_offset = 0\<rparr>
   \<and> rz_reg_get reg_sh ''r1'' =
        Some \<lparr>item_name = ''r1'', item_type = 0, item_size = 32, item_offset = 32\<rparr>
   \<and> rz_reg_get reg_sh ''ghost'' = None
   \<and> rz_reg_get_bv (snd (sync_to_reg_loop vm_push reg_sh [(''r0'', 32), (''ghost'', 8), (''r1'', 32)] 1))
        \<lparr>item_name = ''r0'', item_type = 0, item_size = 32, item_offset = 0\<rparr> = (32, 0xab)
   \<and> rz_reg_get_bv (snd (rz_il_vm_sync_to_reg vm_push reg_sh))
        \<lparr>item_name = ''r0'', item_type = 0, item_size = 32, item_offset = 0\<rparr> = (32, 0xab)
   \<and> rz_reg_get_bv (snd (rz_il_vm_sync_to_reg vm_push reg_sh))
        \<lparr>item_name = ''r1'', item_type = 0, item_size = 32, item_offset = 32\<rparr> = (32, 0x3456789a)
   \<and> spec_pc_clean vm_push reg_sh
   \<and> \<not> spec_entry_clean vm_push reg_sh (''r0'', 32)
   \<and> \<not> fst (rz_il_vm_sync_to_reg vm_push reg_sh)"
proof -
  let ?rb = "[(''r0'', 32::nat), (''ghost'', 8), (''r1'', 32)]"
  let ?r0 = "\<lparr>item_name = ''r0'', item_type = 0, item_size = 32, item_offset = 0\<rparr>"
  let ?r1 = "\<lparr>item_name = ''r1'', item_type = 0, item_size = 32, item_offset = 32\<rparr>"
  have hb: "vm_reg_binding vm_push = Some ?rb" by (simp add: vm_push_def vm_init_def)
  have v0: "vm_global_bind vm_push ''r0'' = Some (VBitv 8 0xab)" by (simp add: vm_push_def vm_init_def)
  have v1: "vm_global_bind vm_push ''r1'' = Some (VBitv 40 0x123456789a)"
    by (simp add: vm_push_def vm_init_def)
  have pc: "spec_pc_clean vm_push reg_sh"
    by (simp add: spec_pc_clean_def vm_push_def vm_init_def reg_sh_def rz_reg_get_def)
  have nc: "\<not> spec_entry_clean vm_push reg_sh (''r0'', 32)"
    by (simp add: spec_entry_clean_def reg_sh_get_r0 v0)
  note t = sync_to_reg_coercion_and_fidelity[of vm_push reg_sh]
  note each = t[THEN conjunct1, rule_format, OF hb, THEN conjunct2, rule_format]
  have p0: "0 < length ?rb \<and> rz_reg_get reg_sh (fst (?rb ! 0)) = Some ?r0
            \<and> vm_global_bind vm_push (fst (?rb ! 0)) = Some (VBitv 8 0xab) \<and> (0xab::nat) < 2 ^ 8"
    using reg_sh_get_r0 v0 by simp
  have p2: "2 < length ?rb \<and> rz_reg_get reg_sh (fst (?rb ! 2)) = Some ?r1
            \<and> vm_global_bind vm_push (fst (?rb ! 2)) = Some (VBitv 40 0x123456789a)
            \<and> (0x123456789a::nat) < 2 ^ 40"
    using reg_sh_get_r1 v1 by simp
  have l0: "\<forall>j rj. 0 < j \<and> j < length ?rb \<and> rz_reg_get reg_sh (fst (?rb ! j)) = Some rj
              \<longrightarrow> \<not> regs_overlap ?r0 rj"
  proof (intro allI impI)
    fix j rj
    assume a: "0 < j \<and> j < length ?rb \<and> rz_reg_get reg_sh (fst (?rb ! j)) = Some rj"
    then have "j = 1 \<or> j = 2" by auto
    then show "\<not> regs_overlap ?r0 rj"
    proof
      assume "j = 1"
      then show ?thesis using a reg_sh_get_ghost by simp
    next
      assume "j = 2"
      then have "rj = ?r1" using a reg_sh_get_r1 by simp
      then show ?thesis by (simp add: regs_overlap_def)
    qed
  qed
  have l2: "\<forall>j rj. 2 < j \<and> j < length ?rb \<and> rz_reg_get reg_sh (fst (?rb ! j)) = Some rj
              \<longrightarrow> \<not> regs_overlap ?r1 rj"
    by (intro allI impI) auto
  have c0: "spec_coerce 8 0xab 32 = 0xab" by (simp add: spec_coerce_def)
  have c2: "spec_coerce 40 0x123456789a 32 = 0x3456789a" by (simp add: spec_coerce_def)
  have w0: "rz_reg_get_bv (snd (sync_to_reg_loop vm_push reg_sh ?rb 1)) ?r0 = (32, 0xab)"
    using each[OF p0, THEN conjunct1] c0 by simp
  have f0: "rz_reg_get_bv (snd (rz_il_vm_sync_to_reg vm_push reg_sh)) ?r0 = (32, 0xab)"
    using each[OF p0, THEN conjunct2, THEN mp, OF l0] c0 by simp
  have f2: "rz_reg_get_bv (snd (rz_il_vm_sync_to_reg vm_push reg_sh)) ?r1 = (32, 0x3456789a)"
    using each[OF p2, THEN conjunct2, THEN mp, OF l2] c2 by simp
  have fl: "\<not> fst (rz_il_vm_sync_to_reg vm_push reg_sh)"
    using t[THEN conjunct2] hb nc by simp
  show ?thesis
    by (intro conjI hb v0 v1 reg_sh_get_r0 reg_sh_get_r1 reg_sh_get_ghost w0 f0 f2 pc nc fl)
qed

text \<open>
  C6 as stated fails: a machine without a binding gets the flag false although its
  program counter is clean and no entry at all needed coercion or lacked a counterpart.
\<close>

theorem sync_to_reg_fidelity_counterexample:
  "\<not> fst (rz_il_vm_sync_to_reg vm_init reg_sh) \<and> vm_reg_binding vm_init = None
   \<and> spec_pc_clean vm_init reg_sh"
  by (simp add: rz_il_vm_sync_to_reg_def Let_def vm_init_def spec_pc_clean_def reg_sh_def rz_reg_get_def)

lemma sync_from_reg_item_other:
  "fst item \<noteq> n \<Longrightarrow> vm_global_bind (sync_from_reg_item reg vm item) n = vm_global_bind vm n"
  by (simp add: sync_from_reg_item_def rz_il_hash_bind_def rz_il_find_var_by_name_def Let_def)

lemma sync_from_reg_item_keeps:
  "vm_vars (sync_from_reg_item reg vm item) = vm_vars vm \<and>
   vm_events (sync_from_reg_item reg vm item) = vm_events vm"
  by (simp add: sync_from_reg_item_def rz_il_hash_bind_def Let_def split: option.splits)

lemma sync_from_reg_item_absent:
  "rz_reg_get reg n = None \<Longrightarrow> n \<in> set (vm_vars vm) \<Longrightarrow>
   vm_global_bind (sync_from_reg_item reg vm (n, sz)) n = Some (VBitv sz 0)"
  by (simp add: sync_from_reg_item_def rz_il_hash_bind_def rz_il_find_var_by_name_def
      rz_bv_new_zero_def rz_bv_len_def rz_il_vm_fortify_bitv_def)

lemma sync_from_reg_fold:
  assumes "rz_reg_get reg n = None" and "n \<in> set (vm_vars vm)"
    and "\<forall>sz'. (n, sz') \<in> set rb \<longrightarrow> sz' = sz"
    and "(n, sz) \<in> set rb \<or> vm_global_bind vm n = Some (VBitv sz 0)"
  shows "vm_global_bind (fold (\<lambda>item vm. sync_from_reg_item reg vm item) rb vm) n = Some (VBitv sz 0)
       \<and> vm_events (fold (\<lambda>item vm. sync_from_reg_item reg vm item) rb vm) = vm_events vm"
  using assms
proof (induction rb arbitrary: vm)
  case Nil
  then show ?case by simp
next
  case (Cons item rb)
  let ?vm' = "sync_from_reg_item reg vm item"
  have vars: "n \<in> set (vm_vars ?vm')" using Cons.prems(2) by (simp add: sync_from_reg_item_keeps)
  have ev: "vm_events ?vm' = vm_events vm" by (simp add: sync_from_reg_item_keeps)
  have sizes: "\<forall>sz'. (n, sz') \<in> set rb \<longrightarrow> sz' = sz" using Cons.prems(3) by simp
  have "(n, sz) \<in> set rb \<or> vm_global_bind ?vm' n = Some (VBitv sz 0)"
  proof (cases "fst item = n")
    case True
    then have "item = (n, sz)" using Cons.prems(3) by (cases item) auto
    then show ?thesis
      using sync_from_reg_item_absent[OF Cons.prems(1,2)] by simp
  next
    case False
    then have "item \<noteq> (n, sz)" by auto
    then show ?thesis using Cons.prems(4) sync_from_reg_item_other[OF False] by auto
  qed
  then show ?case
    using Cons.IH[OF Cons.prems(1) vars sizes] ev by simp
qed

lemma sync_from_reg_pc_keeps:
  "vm_vars (sync_from_reg_pc vm reg) = vm_vars vm \<and>
   vm_events (sync_from_reg_pc vm reg) = vm_events vm \<and>
   vm_global_bind (sync_from_reg_pc vm reg) = vm_global_bind vm \<and>
   vm_reg_binding (sync_from_reg_pc vm reg) = vm_reg_binding vm"
  by (simp add: sync_from_reg_pc_def Let_def split: option.splits)

text \<open>
  C10. When the machine has a binding with an entry of a recorded size whose register is
  absent from the register file, and the variable of that name exists, then after the pull
  the variable is bound to the all-zero bitvector of the recorded size; the pull returns
  the machine and appends nothing to its event log.
\<close>

theorem sync_from_reg_absent_register:
  assumes "vm_reg_binding vm = Some rb" and "(n, sz) \<in> set rb"
    and "\<forall>sz'. (n, sz') \<in> set rb \<longrightarrow> sz' = sz"
    and "rz_reg_get reg n = None" and "n \<in> set (vm_vars vm)"
  shows "vm_global_bind (rz_il_vm_sync_from_reg vm reg) n = Some (VBitv sz 0)
       \<and> vm_events (rz_il_vm_sync_from_reg vm reg) = vm_events vm"
proof -
  let ?vm = "sync_from_reg_pc vm reg"
  have v: "n \<in> set (vm_vars ?vm)" using assms(5) by (simp add: sync_from_reg_pc_keeps)
  have b: "vm_reg_binding ?vm = Some rb" using assms(1) by (simp add: sync_from_reg_pc_keeps)
  have e: "vm_events ?vm = vm_events vm" by (simp add: sync_from_reg_pc_keeps)
  show ?thesis
    using sync_from_reg_fold[OF assms(4) v assms(3)] assms(2) b e
    by (simp add: rz_il_vm_sync_from_reg_def Let_def)
qed

theorem sync_from_reg_absent_register_witness:
  "vm_reg_binding vm_sync = Some [(''ghost'', 8), (''r1'', 32), (''r0'', 32)]
   \<and> (''ghost'', 8) \<in> set [(''ghost'', 8::nat), (''r1'', 32), (''r0'', 32)]
   \<and> rz_reg_get reg_sh ''ghost'' = None \<and> ''ghost'' \<in> set (vm_vars vm_sync)
   \<and> vm_global_bind vm_sync ''ghost'' = Some (VBitv 8 0xcd)
   \<and> vm_global_bind (rz_il_vm_sync_from_reg vm_sync reg_sh) ''ghost'' = Some (VBitv 8 0)
   \<and> vm_events (rz_il_vm_sync_from_reg vm_sync reg_sh) = vm_events vm_sync"
proof -
  have h1: "vm_reg_binding vm_sync = Some [(''ghost'', 8), (''r1'', 32), (''r0'', 32)]"
    by (simp add: vm_sync_def vm_init_def)
  have h2: "(''ghost'', 8) \<in> set [(''ghost'', 8::nat), (''r1'', 32), (''r0'', 32)]" by simp
  have h3: "\<forall>sz'. (''ghost'', sz') \<in> set [(''ghost'', 8::nat), (''r1'', 32), (''r0'', 32)] \<longrightarrow> sz' = 8"
    by simp
  have h4: "rz_reg_get reg_sh ''ghost'' = None" by (simp add: rz_reg_get_def reg_sh_def)
  have h5: "''ghost'' \<in> set (vm_vars vm_sync)" by (simp add: vm_sync_def vm_init_def)
  have h6: "vm_global_bind vm_sync ''ghost'' = Some (VBitv 8 0xcd)" by (simp add: vm_sync_def vm_init_def)
  show ?thesis
    using sync_from_reg_absent_register[OF h1 h2 h3 h4 h5] h1 h2 h4 h5 h6 by simp
qed

section \<open>Instruction generators\<close>

lemmas lifter_defs = sh_valid_gpr_def sh_banked_reg_def sh_get_banked_reg_def op_param_def
  sh_il_set_pure_param_def sh_il_get_pure_param_def
  sh_il_set_param_pc_def sh_il_get_param_pc_def sh_il_set_reg_def sh_il_get_reg_def
  sh_il_get_effective_addr_pc_def sh_apply_effects_def sh_il_get_status_reg_bit_def
  sh_global_registers_def sh_registers_def


lemma priv_bit_eval:
  "vm_global_bind vm SH_SR_D = Some (VBool md) \<Longrightarrow>
   rz_il_evaluate_bitv vm (sh_il_get_status_reg_bit SH_SR_D) = Some (32, if md then 1 else 0)"
  by (simp add: rz_il_evaluate_bitv_def sh_il_get_status_reg_bit_def builder_defs header_defs eval_defs)

lemma sh_il_ldc_fault:
  "vm_global_bind vm SH_SR_D = Some (VBool False) \<Longrightarrow> param0 (op_param op 1) \<noteq> SH_REG_IND_GBR \<Longrightarrow>
   sh_il_ldc op pc vm = Some (None, vm\<lparr>vm_events := vm_events vm @ [''SuperH: RESINST'']\<rparr>)"
  by (simp add: sh_il_ldc_def priv_bit_eval rz_il_vm_event_add_def Let_def)

lemma sh_il_ldc_no_fault:
  "vm_global_bind vm SH_SR_D = Some (VBool md) \<Longrightarrow> md \<or> param0 (op_param op 1) = SH_REG_IND_GBR \<Longrightarrow>
   \<exists>e. sh_il_ldc op pc vm = Some (e, vm)"
  by (auto simp add: sh_il_ldc_def priv_bit_eval rz_il_vm_event_add_def Let_def)

text \<open>
  With the privilege bit 1 and a banked destination the effect is the write to the bank-1
  register; with any destination that is not a banked register, a control register
  included, the generator returns no effect.
\<close>

lemma sh_il_ldc_bank_register:
  assumes "vm_global_bind vm SH_SR_D = Some (VBool True)"
    and "mode (op_param op 0) = SH_REG_DIRECT" and "sh_il_get_reg (param0 (op_param op 0)) = Some rm"
    and "param0 (op_param op 1) < 8" and "op_scaling op = SH_SCALING_INVALID"
  shows "sh_il_ldc op pc vm =
     Some (Some (OpSet GLOBAL (sh_registers ! param0 (op_param op 1) @ ''b'') rm), vm)"
  using assms banked_names[OF assms(4)]
  by (simp add: sh_il_ldc_def priv_bit_eval Let_def sh_valid_gpr_def header_defs builder_defs
      sh_il_get_pure_param_def sh_il_get_param_pc_def)

lemma sh_il_ldc_control_register:
  assumes "vm_global_bind vm SH_SR_D = Some (VBool md)"
    and "mode (op_param op 1) = SH_REG_DIRECT" and "\<not> sh_banked_reg (param0 (op_param op 1))"
    and "op_scaling op = SH_SCALING_INVALID"
  shows "\<exists>vm'. sh_il_ldc op pc vm = Some (None, vm')"
proof (cases "sh_valid_gpr (param0 (op_param op 1))")
  case True
  then show ?thesis using assms
    by (simp add: sh_il_ldc_def priv_bit_eval Let_def sh_get_banked_reg_def builder_defs)
next
  case False
  have "sh_il_set_pure_param op pc 1 v = None" for v
    using False assms(2)
    by (simp add: sh_il_set_pure_param_def sh_il_set_param_pc_def sh_il_set_reg_def
        sh_il_get_param_pc_def sh_il_get_reg_def sh_il_get_effective_addr_pc_def
        sh_apply_effects_def builder_defs Let_def)
  then show ?thesis using False assms
    by (simp add: sh_il_ldc_def priv_bit_eval Let_def)
qed

text \<open>
  C7. An LDC whose destination is not GBR, lifted while the privilege bit is 0, appends
  the reserved-instruction event and returns no effect (\<open>sh_il_ldc_fault\<close>); with the
  privilege bit 1 or the destination GBR no event is appended (\<open>sh_il_ldc_no_fault\<close>).
  The effect promised for that second case is missing for GBR: the generator hands the
  destination to \<open>sh_il_set_reg\<close>, which refuses every register that is not general
  (\<open>sh_il_ldc_control_register\<close>), so LDC R1, GBR yields no effect at all, in privileged
  and in user mode.
\<close>

theorem sh_il_ldc_gbr_no_effect:
  "sh_il_ldc op_ldc_gbr 0 vm_priv = Some (None, vm_priv) \<and>
   sh_il_ldc op_ldc_gbr 0 vm_user = Some (None, vm_user)"
  by (simp add: sh_il_ldc_def op_ldc_gbr_def vm_priv_def vm_user_def vm_init_def
      rz_il_evaluate_bitv_def sh_il_get_status_reg_bit_def builder_defs header_defs flag_defs eval_defs
      Let_def sh_valid_gpr_def op_param_def sh_il_set_pure_param_def sh_il_get_pure_param_def
      sh_il_set_param_pc_def sh_il_get_param_pc_def sh_il_set_reg_def sh_il_get_reg_def
      sh_il_get_effective_addr_pc_def sh_apply_effects_def)

lemma upt_0_4: "[0..<4] = [0, 1, 2, 3::nat]"
  by code_simp

lemma loadw_2: "mem_loadw vm_mac 32 256 32 = 2"
  by (simp add: mem_loadw_def vm_mac_def vm_init_def upt_0_4)

lemma mac_l_tree:
  "sh_il_mac op_mac_l 0 = Some
    (OpSeq
      (OpSeq
        (OpSeq
          (OpSet LOCAL ''mac''
            (OpLogOr (OpShiftL0 (OpUnsigned 64 (OpVar GLOBAL ''mach'')) (OpBitv 32 32))
                     (OpUnsigned 64 (OpVar GLOBAL ''macl''))))
          (OpBranch (OpIte (OpVar GLOBAL SH_SR_S) (OpBitv 32 1) (OpBitv 32 0))
            (OpSet LOCAL ''mac''
              (OpSigned 64 (OpUnsigned 48 (OpLogAnd
                 (OpAdd (OpMul (OpSigned 64 (OpLoadW 32 (the (sh_il_get_reg 1))))
                               (OpSigned 64 (OpLoadW 32 (the (sh_il_get_reg 2)))))
                        (OpVar LOCAL ''mac''))
                 (OpBitv 64 0xffffffffffff)))))
            (OpSet GLOBAL ''mac''
                 (OpAdd (OpMul (OpSigned 64 (OpLoadW 32 (the (sh_il_get_reg 1))))
                               (OpSigned 64 (OpLoadW 32 (the (sh_il_get_reg 2)))))
                        (OpVar LOCAL ''mac'')))))
        (OpSeq
          (OpSet GLOBAL ''macl'' (OpUnsigned 32 (OpLogAnd (OpVar LOCAL ''mac'') (OpBitv 64 0xffffffff))))
          (OpSet GLOBAL ''mach'' (OpUnsigned 32 (OpShiftR0 (OpVar LOCAL ''mac'') (OpBitv 32 32))))))
      (OpSeq (the (sh_il_set_reg 2 (ADD (sh_il_get_reg 2) (SH_U_ADDR 4))))
             (the (sh_il_set_reg 1 (ADD (sh_il_get_reg 1) (SH_U_ADDR 4))))))"
  by (simp add: sh_il_mac_def op_mac_l_def lifter_defs builder_defs header_defs flag_defs Let_def)


lemma reg_trees:
  "sh_il_get_reg 1 = Some (OpIte (OpAnd (OpVar GLOBAL SH_SR_D) (OpVar GLOBAL SH_SR_R))
      (OpVar GLOBAL ''r1b'') (OpVar GLOBAL ''r1''))"
  "sh_il_get_reg 2 = Some (OpIte (OpAnd (OpVar GLOBAL SH_SR_D) (OpVar GLOBAL SH_SR_R))
      (OpVar GLOBAL ''r2b'') (OpVar GLOBAL ''r2''))"
  by (simp_all add: lifter_defs builder_defs header_defs)

text \<open>
  C4. MAC.L should store the accumulator plus the product when the saturation bit is
  false. The tree of MAC.L @R1+, @R2+ has, as the arm for a false saturation bit, a write
  to a global variable \<open>mac\<close>, while the store back into \<open>macl\<close> and \<open>mach\<close> reads the local
  variable \<open>mac\<close>: run with that arm on a machine with accumulator 5 and operands 2 and 3,
  the sum 11 is computed and the accumulator is still 5.
\<close>

theorem sh_il_mac_long_plain_arm_keeps_accumulator:
  "\<exists>init c sat x store posts vm1 vm'.
     sh_il_mac op_mac_l 0 =
       Some (OpSeq (OpSeq (OpSeq init (OpBranch c sat (OpSet GLOBAL ''mac'' x))) store) posts)
     \<and> exec_effect init vm_mac = Some vm1 \<and> eval_pure vm1 x = Some (VBitv 64 11)
     \<and> exec_effect (OpSeq (OpSeq (OpSeq init (OpSet GLOBAL ''mac'' x)) store) posts) vm_mac = Some vm'
     \<and> vm_global_bind vm' ''mach'' = Some (VBitv 32 0)
     \<and> vm_global_bind vm' ''macl'' = Some (VBitv 32 5)"
  unfolding mac_l_tree
  by (simp add: reg_trees lifter_defs builder_defs header_defs flag_defs Let_def
      eval_defs vm_mac_def vm_init_def mem_loadw_def bv_signed_def bv_msb_def upt_0_4)

text \<open>
  The other arm does what the spec says of it: with the saturation bit true, accumulator
  \<open>0x00007fffffffffff\<close> and product 1, the sum is \<open>2^47\<close> and the accumulator becomes the
  sign extension of its low 48 bits, \<open>0xffff800000000000\<close>.
\<close>

lemma sh_il_mac_long_saturating_arm:
  "\<exists>init c x plain store posts vm'.
     sh_il_mac op_mac_l 0 =
       Some (OpSeq (OpSeq (OpSeq init (OpBranch c (OpSet LOCAL ''mac'' x) plain)) store) posts)
     \<and> exec_effect (OpSeq (OpSeq (OpSeq init (OpSet LOCAL ''mac'' x)) store) posts) vm_mac_sat = Some vm'
     \<and> vm_global_bind vm' ''mach'' = Some (VBitv 32 0xffff8000)
     \<and> vm_global_bind vm' ''macl'' = Some (VBitv 32 0)"
  unfolding mac_l_tree
  by (simp add: reg_trees lifter_defs builder_defs header_defs flag_defs Let_def
      eval_defs vm_mac_sat_def vm_init_def mem_loadw_def bv_signed_def bv_msb_def upt_0_4)

lemma get_reg_some: "reg < 16 \<Longrightarrow> \<exists>t. sh_il_get_reg reg = Some t"
  by (cases "reg < 8") (simp_all add: get_reg_banked get_reg_plain)

lemma get_pure_param_direct:
  assumes "mode (op_param op x) = SH_REG_DIRECT"
    and "op_scaling op = SH_SCALING_INVALID \<or> op_scaling op = SH_SCALING_L"
  shows "sh_il_get_pure_param op pc x = sh_il_get_reg (param0 (op_param op x))"
  using assms by (auto simp: sh_il_get_pure_param_def sh_il_get_param_pc_def Let_def)

lemma set_pure_param_direct:
  assumes "mode (op_param op x) = SH_REG_DIRECT"
    and "op_scaling op = SH_SCALING_INVALID \<or> op_scaling op = SH_SCALING_L"
    and "sh_il_set_reg (param0 (op_param op x)) v = Some e"
  shows "sh_il_set_pure_param op pc x v = Some e"
  using assms by (auto simp: sh_il_set_pure_param_def sh_il_set_param_pc_def sh_apply_effects_def Let_def)

text \<open>
  The three places where the division step applies an operation to a value of the other
  sort: the boolean \<open>OR\<close> to a bitvector, a branch to the 32-bit form of a status bit, and
  \<open>IS_ZERO\<close> to a boolean.
\<close>

lemma bool_or_of_unsigned_stuck: "eval_pure vm (OpOr x (OpUnsigned n y)) = None"
  by (simp add: bool2_def bitv1_def split: option.splits RzILVal.splits)

lemma branch_on_status_bit_stuck:
  "exec_effect (OpBranch (OpIte c (OpBitv 32 1) (OpBitv 32 0)) t f) vm = None"
  by (simp split: option.splits RzILVal.splits)

lemma is_zero_of_bool_stuck:
  "vm_local_bind vm ''tmp1'' = Some (VBool c) \<Longrightarrow> eval_pure vm (OpIsZero (OpVar LOCAL ''tmp1'')) = None"
  by (simp add: bitv1_def)

lemma set_reg_stuck:
  assumes "reg < 16" and "eval_pure vm v = None"
  shows "exec_opt (sh_il_set_reg reg (Some v)) vm = None"
proof (cases "reg < 8")
  case True
  then show ?thesis using assms(2)
    by (simp add: set_reg_banked exec_opt_def split: option.splits RzILVal.splits)
next
  case False
  then show ?thesis using assms
    by (simp add: set_reg_plain exec_opt_def)
qed

lemma seq_stuck_right: "(\<And>vm'. exec_effect y vm' = None) \<Longrightarrow> exec_effect (OpSeq x y) vm = None"
  by (simp split: option.splits)

lemma div1_tree:
  assumes "mode (op_param op 0) = SH_REG_DIRECT" and "mode (op_param op 1) = SH_REG_DIRECT"
    and "param0 (op_param op 0) < 16" and "param0 (op_param op 1) < 16"
    and "op_scaling op = SH_SCALING_INVALID \<or> op_scaling op = SH_SCALING_L"
    and rn: "sh_il_get_reg (param0 (op_param op 1)) = Some rn"
    and st: "\<And>v. sh_il_set_reg (param0 (op_param op 1)) (Some v) = Some (set_rn v)"
  shows "\<exists>a11 a10 a01 a00.
     sh_il_div1 op pc = Some
       (OpSeq
         (OpSeq (OpSet LOCAL ''old_q'' (OpIte (OpVar GLOBAL SH_SR_Q) (OpBitv 32 1) (OpBitv 32 0)))
           (OpSeq (OpSet GLOBAL SH_SR_Q (OpMsb rn))
             (OpSeq (set_rn (OpShiftL0 rn (OpBitv 32 1)))
                    (set_rn (OpOr rn (OpUnsigned 32
                       (OpIte (OpVar GLOBAL SH_SR_T) (OpBitv 32 1) (OpBitv 32 0))))))))
         (OpSeq
           (OpBranch (OpVar LOCAL ''old_q'')
             (OpBranch (OpIte (OpVar GLOBAL SH_SR_M) (OpBitv 32 1) (OpBitv 32 0)) a11 a10)
             (OpBranch (OpIte (OpVar GLOBAL SH_SR_M) (OpBitv 32 1) (OpBitv 32 0)) a01 a00))
           (OpSet GLOBAL SH_SR_T
              (OpEq (OpIte (OpVar GLOBAL SH_SR_Q) (OpBitv 32 1) (OpBitv 32 0))
                    (OpIte (OpVar GLOBAL SH_SR_M) (OpBitv 32 1) (OpBitv 32 0))))))"
proof -
  obtain rm where rm: "sh_il_get_reg (param0 (op_param op 0)) = Some rm"
    using get_reg_some[OF assms(3)] by blast
  have g0: "sh_il_get_pure_param op pc 0 = Some rm"
    using get_pure_param_direct[OF assms(1) assms(5)] rm by simp
  have g1: "sh_il_get_pure_param op pc (Suc 0) = Some rn"
    using get_pure_param_direct[OF assms(2) assms(5)] rn by simp
  have s1: "\<And>v. sh_il_set_pure_param op pc (Suc 0) (Some v) = Some (set_rn v)"
    using set_pure_param_direct[OF assms(2) assms(5)] st by simp
  show ?thesis
    by (simp add: sh_il_div1_def g0 g1 s1 sh_il_get_status_reg_bit_def builder_defs header_defs Let_def)
qed


text \<open>
  C3. The division step should save the quotient bit, branch four ways on the saved bit
  and the mode bit M, add or subtract the divisor, toggle the quotient bit and set T. For
  a DIV1 on two general registers the generator returns a tree: an initial part, the
  four-way switch, and the write of T. The initial part ends with the boolean \<open>OR\<close> of the
  dividend and the 32-bit form of T, and the switch branches on the 32-bit form of M, so
  neither has a run on any machine, and the whole effect has none: no register and no
  flag is updated.
\<close>

theorem sh_il_div1_no_run:
  assumes "mode (op_param op 0) = SH_REG_DIRECT" and "mode (op_param op 1) = SH_REG_DIRECT"
    and "param0 (op_param op 0) < 16" and "param0 (op_param op 1) < 16"
    and "op_scaling op = SH_SCALING_INVALID \<or> op_scaling op = SH_SCALING_L"
  shows "\<exists>init q_switch fin.
     sh_il_div1 op pc = Some (OpSeq init (OpSeq q_switch fin)) \<and>
     (\<forall>vm. exec_effect init vm = None) \<and>
     (\<forall>vm. exec_effect q_switch vm = None) \<and>
     (\<forall>vm. exec_opt (sh_il_div1 op pc) vm = None)"
proof -
  obtain rn where rn: "sh_il_get_reg (param0 (op_param op 1)) = Some rn"
    using get_reg_some[OF assms(4)] by blast
  define set_rn where "set_rn = (\<lambda>v. the (sh_il_set_reg (param0 (op_param op 1)) (Some v)))"
  have st: "\<And>v. sh_il_set_reg (param0 (op_param op 1)) (Some v) = Some (set_rn v)"
    using assms(4) unfolding set_rn_def
    by (cases "param0 (op_param op 1) < 8") (simp_all add: set_reg_banked set_reg_plain)
  let ?sb = "\<lambda>b. OpIte (OpVar GLOBAL b) (OpBitv 32 1) (OpBitv 32 0)"
  let ?ort = "set_rn (OpOr rn (OpUnsigned 32 (?sb SH_SR_T)))"
  let ?init = "OpSeq (OpSet LOCAL ''old_q'' (?sb SH_SR_Q))
           (OpSeq (OpSet GLOBAL SH_SR_Q (OpMsb rn))
             (OpSeq (set_rn (OpShiftL0 rn (OpBitv 32 1))) ?ort))"
  let ?fin = "OpSet GLOBAL SH_SR_T (OpEq (?sb SH_SR_Q) (?sb SH_SR_M))"
  obtain a11 a10 a01 a00 where
    tree: "sh_il_div1 op pc = Some (OpSeq ?init
         (OpSeq (OpBranch (OpVar LOCAL ''old_q'')
                   (OpBranch (?sb SH_SR_M) a11 a10) (OpBranch (?sb SH_SR_M) a01 a00)) ?fin))"
    using div1_tree[OF assms rn st, of pc] by blast
  let ?sw = "OpBranch (OpVar LOCAL ''old_q'')
                   (OpBranch (?sb SH_SR_M) a11 a10) (OpBranch (?sb SH_SR_M) a01 a00)"
  have ort: "exec_effect ?ort vm = None" for vm
  proof -
    have e: "eval_pure vm (OpOr rn (OpUnsigned 32 (?sb SH_SR_T))) = None"
      by (rule bool_or_of_unsigned_stuck)
    show ?thesis
      using set_reg_stuck[OF assms(4) e, unfolded st exec_opt_def] by simp
  qed
  have i: "exec_effect ?init vm = None" for vm
    by (intro seq_stuck_right ort)
  have sw: "exec_effect ?sw vm = None" for vm
    by (simp add: branch_on_status_bit_stuck split: option.splits RzILVal.splits)
  have whole: "exec_opt (sh_il_div1 op pc) vm = None" for vm
    unfolding tree exec_opt_def using i[of vm] by simp
  show ?thesis
    using tree i sw whole by blast
qed

theorem sh_il_div1_no_run_witness:
  "mode (op_param op_div1 0) = SH_REG_DIRECT \<and> mode (op_param op_div1 1) = SH_REG_DIRECT
   \<and> param0 (op_param op_div1 0) < 16 \<and> param0 (op_param op_div1 1) < 16
   \<and> op_scaling op_div1 = SH_SCALING_INVALID
   \<and> sh_il_div1 op_div1 0 \<noteq> None
   \<and> exec_opt (sh_il_div1 op_div1 0) vm_div = None"
proof -
  have h1: "mode (op_param op_div1 0) = SH_REG_DIRECT" by (simp add: op_div1_def op_param_def)
  have h2: "mode (op_param op_div1 1) = SH_REG_DIRECT" by (simp add: op_div1_def op_param_def)
  have h3: "param0 (op_param op_div1 0) < 16" by (simp add: op_div1_def op_param_def)
  have h4: "param0 (op_param op_div1 1) < 16" by (simp add: op_div1_def op_param_def)
  have s5: "op_scaling op_div1 = SH_SCALING_INVALID" by (simp add: op_div1_def)
  have h5: "op_scaling op_div1 = SH_SCALING_INVALID \<or> op_scaling op_div1 = SH_SCALING_L"
    using s5 by simp
  from sh_il_div1_no_run[OF h1 h2 h3 h4 h5, of 0]
  have r: "sh_il_div1 op_div1 0 \<noteq> None \<and> exec_opt (sh_il_div1 op_div1 0) vm_div = None"
    by auto
  show ?thesis
    by (intro conjI h1 h2 h3 h4 s5 r[THEN conjunct1] r[THEN conjunct2])
qed

end
